theory Spec2Isabelle
  imports Main "HOL-Library.AList"
begin

section \<open>Python values used by the gateway\<close>

text \<open>
  The gateway formats model ids with f-strings (\<^verbatim>\<open>f"model_{model_id}"\<close>,
  \<^verbatim>\<open>f"Model_{model_id}"\<close>). \<open>str_int\<close> is Python's \<^verbatim>\<open>str\<close> on an
  unbounded integer: decimal digits, most significant first, with a leading minus sign
  for a negative number.
\<close>

definition digit_char :: "nat \<Rightarrow> char" where
  "digit_char d = char_of (48 + d)"

fun str_nat :: "nat \<Rightarrow> string" where
  "str_nat n = (if n < 10 then [digit_char n] else str_nat (n div 10) @ [digit_char (n mod 10)])"

declare str_nat.simps [simp del]

definition str_int :: "int \<Rightarrow> string" where
  "str_int i = (if i < 0 then CHR ''-'' # str_nat (nat (- i)) else str_nat (nat i))"

text \<open>
  A Python \<^verbatim>\<open>dict\<close> keeps its keys in insertion order; assigning to a key that is
  present replaces the value in place, assigning to a new key appends it. That is
  \<open>AList.update\<close> on an association list; \<open>map_of\<close> is the lookup, and the
  empty dictionary (the only falsy one) is \<open>[]\<close>.
\<close>

type_synonym ('k, 'v) dict = "('k \<times> 'v) list"

section \<open>Configuration (src/config.py)\<close>

record TCPConfig =
  tcp_host :: string
  tcp_port :: int
  tcp_slave_id :: int
  tcp_timeout :: int

record RTUConfig =
  rtu_port :: string
  rtu_baudrate :: int
  rtu_bytesize :: int
  rtu_parity :: string
  rtu_stopbits :: int
  rtu_slave_id :: int
  rtu_timeout :: int

record InverterConfig =
  connection_type :: string
  tcp :: "TCPConfig option"
  rtu :: "RTUConfig option"

record DataCollectionConfig =
  poll_interval :: int
  models_to_read :: "int list"
  max_retries :: int
  retry_delay :: int

record Config =
  inverter :: InverterConfig
  data_collection :: DataCollectionConfig

text \<open>The field defaults of \<^verbatim>\<open>DataCollectionConfig\<close> and of \<^verbatim>\<open>TCPConfig\<close>.\<close>

definition default_data_collection :: DataCollectionConfig where
  "default_data_collection =
     \<lparr>poll_interval = 30, models_to_read = [1, 103, 160, 113], max_retries = 3, retry_delay = 5\<rparr>"

definition default_tcp :: "string \<Rightarrow> TCPConfig" where
  "default_tcp h = \<lparr>tcp_host = h, tcp_port = 502, tcp_slave_id = 1, tcp_timeout = 10\<rparr>"

text \<open>\<^verbatim>\<open>get_default_config()\<close>.\<close>

definition get_default_config :: Config where
  "get_default_config =
     \<lparr>inverter = \<lparr>connection_type = ''tcp'', tcp = Some (default_tcp ''192.168.1.100''), rtu = None\<rparr>,
      data_collection = default_data_collection\<rparr>"

section \<open>The device library as the client sees it\<close>

text \<open>
  The pySunSpec2 device is outside the repository. The client uses it through a handful
  of calls: the constructor, \<^verbatim>\<open>scan\<close>, \<^verbatim>\<open>models\<close>, \<^verbatim>\<open>model.read\<close>, the
  attributes of models, groups and points, and \<^verbatim>\<open>close\<close>. The attribute probes
  become options. For \<open>model_name\<close>, \<open>points\<close>, \<open>groups\<close> and \<open>g_points\<close> the
  client only asks \<^verbatim>\<open>hasattr\<close>: \<open>None\<close> is a missing attribute. For \<open>p_value\<close>
  and \<open>p_cvalue\<close> it asks \<^verbatim>\<open>hasattr\<close> and \<^verbatim>\<open>is not None\<close>: \<open>None\<close> is a
  missing attribute or the value \<^verbatim>\<open>None\<close>.
\<close>

datatype pvalue = Num int | Text string

record point =
  p_value :: "pvalue option"
  p_cvalue :: "pvalue option"

record pgroup =
  g_points :: "(string, point) dict option"

datatype group_entry = Group_list "pgroup list" | Not_a_list

record model_obj =
  model_name :: "string option"
  points :: "(string, point) dict option"
  groups :: "(string, group_entry) dict option"

text \<open>The keys of \<^verbatim>\<open>device.models\<close>: a model is listed under its id and under its name.\<close>

datatype dkey = IntKey int | NameKey string

datatype transport = TCP TCPConfig | RTU RTUConfig

record device =
  dev_transport :: transport
  models :: "(dkey, model_obj list) dict"

text \<open>
  What the outside world answers. Every call the client makes to the library or to the
  event loop happens at a tick of a logical clock, and the answer is a function of that
  tick:
  \<^item> the constructor raises with a message, or returns the device;
  \<^item> \<^verbatim>\<open>scan\<close> raises with a message, or fills \<^verbatim>\<open>device.models\<close>;
  \<^item> \<^verbatim>\<open>model.read\<close> raises, returns leaving the model object in a new state, or the
    awaiting task is cancelled while the read is in flight;
  \<^item> \<^verbatim>\<open>close\<close> raises or returns;
  \<^item> a sleep runs to its end or is woken by a cancellation.
\<close>

datatype read_result = Read_ok model_obj | Read_raises string | Read_cancelled

record env =
  open_outcome :: "nat \<Rightarrow> string option"
  scan_outcome :: "nat \<Rightarrow> string + (dkey, model_obj list) dict"
  read_outcome :: "nat \<Rightarrow> int \<Rightarrow> read_result"
  close_outcome :: "nat \<Rightarrow> string option"
  sleep_cancelled :: "nat \<Rightarrow> bool"

text \<open>
  The calls that leave the process, in the order they are made. \<open>Read_call m ok\<close> is a
  call of \<^verbatim>\<open>model.read\<close> for model \<open>m\<close>; \<open>ok\<close> says whether it returned normally.
  \<open>Log_error\<close> and \<open>Log_warning\<close> are the \<^verbatim>\<open>logger.error\<close> and
  \<^verbatim>\<open>logger.warning\<close> calls (\<^verbatim>\<open>logger.info\<close> is left out).
\<close>

datatype event =
    Open_call transport
  | Scan_call
  | Read_call int bool
  | Close_call
  | Sleep_call int
  | Create_task
  | Cancel_task
  | Await_task
  | Log_error
  | Log_warning

section \<open>Exceptions\<close>

text \<open>
  \<open>Library_error\<close> is any exception the library raises. Since Python 3.8
  \<^verbatim>\<open>asyncio.CancelledError\<close> derives from \<^verbatim>\<open>BaseException\<close>, so
  \<^verbatim>\<open>except Exception\<close> does not catch it; it catches the other three.
\<close>

datatype exn =
    SunSpecDeviceError string
  | Library_error string
  | HTTPException nat string
  | CancelledError

fun is_Exception :: "exn \<Rightarrow> bool" where
  "is_Exception CancelledError = False"
| "is_Exception _ = True"

text \<open>\<^verbatim>\<open>str(e)\<close>; Starlette prints an \<^verbatim>\<open>HTTPException\<close> as status and detail.\<close>

fun str_exn :: "exn \<Rightarrow> string" where
  "str_exn (SunSpecDeviceError m) = m"
| "str_exn (Library_error m) = m"
| "str_exn (HTTPException code d) = str_nat code @ '': '' @ d"
| "str_exn CancelledError = ''''"

section \<open>SunSpecClient (src/sunspec_client.py)\<close>

text \<open>
  What \<^verbatim>\<open>read_model\<close> can hand back. The function returns the empty dictionary or
  a dictionary of four entries; \<open>PyNone\<close> is the value the gateway compares its result
  with.
\<close>

datatype pdata = Val pvalue | Group_data "(string, pvalue) dict list"

record reading =
  r_model_id :: int
  r_model_name :: string
  r_points :: "(string, pdata) dict"
  r_timestamp :: nat

datatype model_data = PyNone | Empty_dict | Model_dict reading

text \<open>Truthiness: \<^verbatim>\<open>None\<close> and \<^verbatim>\<open>{}\<close> are falsy, a dictionary with entries is truthy.\<close>

fun truthy :: "model_data \<Rightarrow> bool" where
  "truthy PyNone = False"
| "truthy Empty_dict = False"
| "truthy (Model_dict r) = True"

text \<open>
  The fields of the class, and two fields of the model: \<open>clock\<close>, the logical time
  (\<^verbatim>\<open>datetime.now()\<close> reads it), and \<open>trace\<close>, the calls made so far.
\<close>

record SunSpecClient =
  device :: "device option"
  is_connected :: bool
  last_read_time :: "nat option"
  cached_data :: "(string, model_data) dict"
  available_models :: "(int, string) dict"
  clock :: nat
  trace :: "event list"

text \<open>\<^verbatim>\<open>SunSpecClient.__init__\<close>.\<close>

definition init_client :: SunSpecClient where
  "init_client =
     \<lparr>device = None, is_connected = False, last_read_time = None, cached_data = [],
      available_models = [], clock = 0, trace = []\<rparr>"

definition emit :: "event \<Rightarrow> SunSpecClient \<Rightarrow> SunSpecClient" where
  "emit e c = c\<lparr>clock := Suc (clock c), trace := trace c @ [e]\<rparr>"

text \<open>The calls a step made: what \<open>c'\<close> has in its trace beyond \<open>c\<close>.\<close>

definition new_events :: "SunSpecClient \<Rightarrow> SunSpecClient \<Rightarrow> event list" where
  "new_events c c' = drop (length (trace c)) (trace c')"

subsection \<open>The steps of connect\<close>

text \<open>\<^verbatim>\<open>_connect_tcp\<close> and \<^verbatim>\<open>_connect_rtu\<close>: \<open>Some e\<close> is the exception raised.\<close>

definition connect_tcp :: "Config \<Rightarrow> env \<Rightarrow> SunSpecClient \<Rightarrow> exn option \<times> SunSpecClient" where
  "connect_tcp cfg ev c =
     (case tcp (inverter cfg) of
        None \<Rightarrow> (Some (SunSpecDeviceError ''TCP configuration not provided''), c)
      | Some tcp_config \<Rightarrow>
          (case open_outcome ev (clock c) of
             Some msg \<Rightarrow> (Some (Library_error msg), emit (Open_call (TCP tcp_config)) c)
           | None \<Rightarrow>
               (None, (emit (Open_call (TCP tcp_config)) c)
                        \<lparr>device := Some \<lparr>dev_transport = TCP tcp_config, models = []\<rparr>\<rparr>)))"

definition connect_rtu :: "Config \<Rightarrow> env \<Rightarrow> SunSpecClient \<Rightarrow> exn option \<times> SunSpecClient" where
  "connect_rtu cfg ev c =
     (case rtu (inverter cfg) of
        None \<Rightarrow> (Some (SunSpecDeviceError ''RTU configuration not provided''), c)
      | Some rtu_config \<Rightarrow>
          (case open_outcome ev (clock c) of
             Some msg \<Rightarrow> (Some (Library_error msg), emit (Open_call (RTU rtu_config)) c)
           | None \<Rightarrow>
               (None, (emit (Open_call (RTU rtu_config)) c)
                        \<lparr>device := Some \<lparr>dev_transport = RTU rtu_config, models = []\<rparr>\<rparr>)))"

text \<open>The body of the loop over \<^verbatim>\<open>self.device.models.items()\<close> in \<^verbatim>\<open>_discover_models\<close>.\<close>

definition default_name :: "int \<Rightarrow> string" where
  "default_name model_id = ''Model_'' @ str_int model_id"

fun store_model :: "dkey \<times> model_obj list \<Rightarrow> (int, string) dict \<Rightarrow> (int, string) dict" where
  "store_model (IntKey model_id, model_list) am =
     AList.update model_id
       (case model_list of
          [] \<Rightarrow> default_name model_id
        | m # _ \<Rightarrow> (case model_name m of Some n \<Rightarrow> n | None \<Rightarrow> default_name model_id))
       am"
| "store_model (NameKey _, model_list) am = am"

definition discover_models :: "env \<Rightarrow> SunSpecClient \<Rightarrow> exn option \<times> SunSpecClient" where
  "discover_models ev c =
     (case device c of
        None \<Rightarrow> (Some (SunSpecDeviceError ''Device not initialized''), c)
      | Some d \<Rightarrow>
          (case scan_outcome ev (clock c) of
             Inl msg \<Rightarrow>
               (Some (SunSpecDeviceError (''Model discovery failed: '' @ msg)), emit Scan_call c)
           | Inr ms \<Rightarrow>
               (None, (emit Scan_call c)
                        \<lparr>device := Some (d\<lparr>models := ms\<rparr>),
                         available_models := fold store_model ms []\<rparr>)))"

text \<open>
  The \<^verbatim>\<open>if\<close>/\<^verbatim>\<open>elif\<close>/\<^verbatim>\<open>else\<close> at the head of \<^verbatim>\<open>connect\<close>: the step that
  opens the transport.
\<close>

definition open_step :: "Config \<Rightarrow> env \<Rightarrow> SunSpecClient \<Rightarrow> exn option \<times> SunSpecClient" where
  "open_step cfg ev c =
     (if connection_type (inverter cfg) = ''tcp'' then connect_tcp cfg ev c
      else if connection_type (inverter cfg) = ''rtu'' then connect_rtu cfg ev c
      else (Some (SunSpecDeviceError
              (''Unsupported connection type: '' @ connection_type (inverter cfg))), c))"

text \<open>The \<^verbatim>\<open>except Exception\<close> clause of \<^verbatim>\<open>connect\<close>.\<close>

definition connect_except :: "exn \<Rightarrow> SunSpecClient \<Rightarrow> (exn + bool) \<times> SunSpecClient" where
  "connect_except e c =
     (if is_Exception e then (Inr False, (emit Log_error c)\<lparr>is_connected := False\<rparr>)
      else (Inl e, c))"

definition connect :: "Config \<Rightarrow> env \<Rightarrow> SunSpecClient \<Rightarrow> (exn + bool) \<times> SunSpecClient" where
  "connect cfg ev c =
     (case open_step cfg ev c of
        (Some e, c1) \<Rightarrow> connect_except e c1
      | (None, c1) \<Rightarrow>
          (case discover_models ev c1 of
             (Some e, c2) \<Rightarrow> connect_except e c2
           | (None, c2) \<Rightarrow> (Inr True, c2\<lparr>is_connected := True\<rparr>)))"

subsection \<open>read_model and read_data\<close>

text \<open>The two extraction loops of \<^verbatim>\<open>read_model\<close>, over points and over groups.\<close>

fun store_point :: "string \<times> point \<Rightarrow> (string, pvalue) dict \<Rightarrow> (string, pvalue) dict" where
  "store_point (point_name, p) acc =
     (case p_value p of
        None \<Rightarrow> acc
      | Some v \<Rightarrow>
          (case p_cvalue p of
             Some cv \<Rightarrow> AList.update point_name cv acc
           | None \<Rightarrow> AList.update point_name v acc))"

definition group_points :: "pgroup \<Rightarrow> (string, pvalue) dict" where
  "group_points g = (case g_points g of None \<Rightarrow> [] | Some ps \<Rightarrow> fold store_point ps [])"

fun store_group :: "string \<times> group_entry \<Rightarrow> (string, pdata) dict \<Rightarrow> (string, pdata) dict" where
  "store_group (group_name, Group_list gs) acc =
     AList.update group_name (Group_data (map group_points gs)) acc"
| "store_group (group_name, Not_a_list) acc = acc"

definition points_data :: "model_obj \<Rightarrow> (string, pdata) dict" where
  "points_data m =
     (let pd = (case points m of
                  None \<Rightarrow> []
                | Some ps \<Rightarrow> map (\<lambda>(n, v). (n, Val v)) (fold store_point ps []))
      in case groups m of None \<Rightarrow> pd | Some gs \<Rightarrow> fold store_group gs pd)"

definition registry_name :: "SunSpecClient \<Rightarrow> int \<Rightarrow> string" where
  "registry_name c model_id =
     (case map_of (available_models c) model_id of
        Some n \<Rightarrow> n
      | None \<Rightarrow> default_name model_id)"

definition read_model :: "env \<Rightarrow> int \<Rightarrow> SunSpecClient \<Rightarrow> (exn + model_data) \<times> SunSpecClient" where
  "read_model ev model_id c =
     (case device c of
        None \<Rightarrow> (Inr Empty_dict, c)
      | Some d \<Rightarrow>
          (case map_of (models d) (IntKey model_id) of
             None \<Rightarrow> (Inr Empty_dict, c)
           | Some [] \<Rightarrow> (Inr Empty_dict, c)
           | Some (model # _) \<Rightarrow>
               (case read_outcome ev (clock c) model_id of
                  Read_cancelled \<Rightarrow> (Inl CancelledError, emit (Read_call model_id False) c)
                | Read_raises msg \<Rightarrow>
                    (Inr Empty_dict, emit Log_error (emit (Read_call model_id False) c))
                | Read_ok m \<Rightarrow>
                    (let c1 = emit (Read_call model_id True) c
                     in (Inr (Model_dict
                                \<lparr>r_model_id = model_id,
                                 r_model_name = registry_name c1 model_id,
                                 r_points = points_data m,
                                 r_timestamp = clock c1\<rparr>), c1)))))"

definition model_key :: "int \<Rightarrow> string" where
  "model_key model_id = ''model_'' @ str_int model_id"

text \<open>
  The \<^verbatim>\<open>for model_id in model_ids\<close> loop of \<^verbatim>\<open>read_data\<close>, with the dictionary
  \<^verbatim>\<open>data\<close> as accumulator. An exception of a read is logged and the loop goes on; a
  cancellation is not an \<^verbatim>\<open>Exception\<close> and leaves the loop.
\<close>

fun read_loop ::
  "env \<Rightarrow> int list \<Rightarrow> (string, model_data) dict \<Rightarrow> SunSpecClient
     \<Rightarrow> (exn + (string, model_data) dict) \<times> SunSpecClient" where
  "read_loop ev [] data c = (Inr data, c)"
| "read_loop ev (model_id # rest) data c =
     (if map_of (available_models c) model_id = None
      then read_loop ev rest data (emit Log_warning c)
      else
        (case read_model ev model_id c of
           (Inl e, c1) \<Rightarrow>
             (if is_Exception e then read_loop ev rest data (emit Log_error c1) else (Inl e, c1))
         | (Inr md, c1) \<Rightarrow>
             (if truthy md then read_loop ev rest (AList.update (model_key model_id) md data) c1
              else read_loop ev rest data c1)))"

text \<open>The default of the parameter: \<^verbatim>\<open>None\<close> stands for the configured models.\<close>

definition requested_ids :: "Config \<Rightarrow> int list option \<Rightarrow> int list" where
  "requested_ids cfg model_ids =
     (case model_ids of None \<Rightarrow> models_to_read (data_collection cfg) | Some ids \<Rightarrow> ids)"

definition read_data ::
  "Config \<Rightarrow> env \<Rightarrow> int list option \<Rightarrow> SunSpecClient
     \<Rightarrow> (exn + (string, model_data) dict) \<times> SunSpecClient" where
  "read_data cfg ev model_ids c =
     (if \<not> is_connected c then (Inl (SunSpecDeviceError ''Device not connected''), c)
      else if device c = None then (Inl (SunSpecDeviceError ''Device not connected''), c)
      else
        (case read_loop ev (requested_ids cfg model_ids) [] c of
           (Inl e, c1) \<Rightarrow> (Inl e, c1)
         | (Inr data, c1) \<Rightarrow>
             (Inr data, c1\<lparr>cached_data := data, last_read_time := Some (clock c1)\<rparr>)))"

subsection \<open>disconnect and get_cached_data\<close>

definition disconnect :: "env \<Rightarrow> SunSpecClient \<Rightarrow> SunSpecClient" where
  "disconnect ev c =
     (case device c of
        None \<Rightarrow> c
      | Some d \<Rightarrow>
          (case close_outcome ev (clock c) of
             None \<Rightarrow> (emit Close_call c)\<lparr>device := None, is_connected := False\<rparr>
           | Some msg \<Rightarrow>
               (emit Log_error (emit Close_call c))\<lparr>device := None, is_connected := False\<rparr>))"

record cached =
  cd_data :: "(string, model_data) dict"
  cd_last_read_time :: "nat option"
  cd_available_models :: "(int, string) dict"

definition get_cached_data :: "SunSpecClient \<Rightarrow> cached" where
  "get_cached_data c =
     \<lparr>cd_data = cached_data c, cd_last_read_time = last_read_time c,
      cd_available_models = available_models c\<rparr>"

section \<open>SunSpecGateway (src/gateway.py)\<close>

text \<open>
  \<open>polling_task\<close> is the handle \<^verbatim>\<open>asyncio.create_task\<close> returned, or \<open>None\<close>.
  The polling task itself is \<open>polling_loop\<close> below. A request handler and a cycle of
  the polling task are each taken as one step on the gateway.
\<close>

datatype task = Task nat

record SunSpecGateway =
  client :: SunSpecClient
  gw_is_connected :: bool
  last_data :: "(string, model_data) dict"
  polling_task :: "task option"

text \<open>\<^verbatim>\<open>SunSpecGateway.__init__\<close>.\<close>

definition init_gateway :: SunSpecGateway where
  "init_gateway =
     \<lparr>client = init_client, gw_is_connected = False, last_data = [], polling_task = None\<rparr>"

definition gw_emit :: "event \<Rightarrow> SunSpecGateway \<Rightarrow> SunSpecGateway" where
  "gw_emit e g = g\<lparr>client := emit e (client g)\<rparr>"

subsection \<open>startup and shutdown\<close>

definition startup :: "Config \<Rightarrow> env \<Rightarrow> SunSpecGateway \<Rightarrow> exn option \<times> SunSpecGateway" where
  "startup cfg ev g =
     (case connect cfg ev (client g) of
        (Inr connected, c1) \<Rightarrow>
          (if connected
           then (None, g\<lparr>client := emit Create_task c1, gw_is_connected := True,
                          polling_task := Some (Task (clock c1))\<rparr>)
           else (None, g\<lparr>client := emit Log_error c1\<rparr>))
      | (Inl e, c1) \<Rightarrow>
          (if is_Exception e then (None, g\<lparr>client := emit Log_error c1\<rparr>)
           else (Some e, g\<lparr>client := c1\<rparr>)))"

text \<open>
  \<^verbatim>\<open>shutdown\<close> cancels the polling task and awaits it before it disconnects the
  client.
\<close>

definition shutdown :: "env \<Rightarrow> SunSpecGateway \<Rightarrow> SunSpecGateway" where
  "shutdown ev g =
     (case polling_task g of
        None \<Rightarrow> g\<lparr>client := disconnect ev (client g)\<rparr>
      | Some t \<Rightarrow> g\<lparr>client := disconnect ev (emit Await_task (emit Cancel_task (client g)))\<rparr>)"

subsection \<open>The polling loop\<close>

text \<open>
  One pass of the \<^verbatim>\<open>while True\<close> body of \<^verbatim>\<open>_polling_loop\<close>. The result says how
  the pass left the loop: on to the next pass, out of it by \<^verbatim>\<open>break\<close>, or out of it
  by an exception (a cancellation that arrives during the sleep of the
  \<^verbatim>\<open>except Exception\<close> clause is raised outside the \<^verbatim>\<open>try\<close>).
\<close>

datatype task_state = Task_running | Task_returned | Task_raised exn

fun store_entry ::
  "string \<times> model_data \<Rightarrow> (string, model_data) dict \<Rightarrow> (string, model_data) dict" where
  "store_entry (k, v) ld = AList.update k v ld"

definition backoff :: int where
  "backoff = 5"

definition polling_step :: "Config \<Rightarrow> env \<Rightarrow> SunSpecGateway \<Rightarrow> task_state \<times> SunSpecGateway" where
  "polling_step cfg ev g =
     (case read_data cfg ev (Some (models_to_read (data_collection cfg))) (client g) of
        (Inr data, c1) \<Rightarrow>
          (if sleep_cancelled ev (clock c1) then Task_returned else Task_running,
           g\<lparr>client := emit (Sleep_call (poll_interval (data_collection cfg))) c1,
             last_data := (if data = [] then last_data g else fold store_entry data (last_data g))\<rparr>)
      | (Inl e, c1) \<Rightarrow>
          (case e of
             CancelledError \<Rightarrow> (Task_returned, g\<lparr>client := c1\<rparr>)
           | _ \<Rightarrow>
               (if sleep_cancelled ev (clock (emit Log_error c1))
                then Task_raised CancelledError else Task_running,
                g\<lparr>client := emit (Sleep_call backoff) (emit Log_error c1)\<rparr>)))"

text \<open>
  The loop, run for at most \<open>n\<close> passes: \<open>Task_running\<close> after \<open>n\<close> passes means
  that the loop has not left and goes into pass \<open>n + 1\<close>.
\<close>

fun polling_loop :: "nat \<Rightarrow> Config \<Rightarrow> env \<Rightarrow> SunSpecGateway \<Rightarrow> task_state \<times> SunSpecGateway" where
  "polling_loop 0 cfg ev g = (Task_running, g)"
| "polling_loop (Suc n) cfg ev g =
     (case polling_step cfg ev g of
        (Task_running, g1) \<Rightarrow> polling_loop n cfg ev g1
      | (st, g1) \<Rightarrow> (st, g1))"

subsection \<open>Routes\<close>

datatype body =
    Live_data "(string, model_data) dict"
  | Model_body int model_data nat
  | Connected_body bool nat

text \<open>The \<^verbatim>\<open>except Exception\<close> clause the routes share: log, answer 500.\<close>

definition route_except :: "exn \<Rightarrow> SunSpecGateway \<Rightarrow> (exn + body) \<times> SunSpecGateway" where
  "route_except e g =
     (if is_Exception e then (Inl (HTTPException 500 (str_exn e)), gw_emit Log_error g)
      else (Inl e, g))"

definition get_live_data :: "SunSpecGateway \<Rightarrow> exn + body" where
  "get_live_data g =
     (if \<not> gw_is_connected g then Inl (HTTPException 503 ''Device not connected'')
      else if last_data g = [] then Inl (HTTPException 404 ''No data available'')
      else Inr (Live_data (last_data g)))"

definition get_model_data :: "env \<Rightarrow> int \<Rightarrow> SunSpecGateway \<Rightarrow> (exn + body) \<times> SunSpecGateway" where
  "get_model_data ev model_id g =
     (if \<not> gw_is_connected g then (Inl (HTTPException 503 ''Device not connected''), g)
      else
        (case read_model ev model_id (client g) of
           (Inl e, c1) \<Rightarrow> route_except e (g\<lparr>client := c1\<rparr>)
         | (Inr data, c1) \<Rightarrow>
             (case data of
                PyNone \<Rightarrow>
                  route_except
                    (HTTPException 404 (''Model '' @ str_int model_id @ '' not found''))
                    (g\<lparr>client := c1\<rparr>)
              | _ \<Rightarrow> (Inr (Model_body model_id data (clock c1)), g\<lparr>client := c1\<rparr>))))"

definition connect_device :: "Config \<Rightarrow> env \<Rightarrow> SunSpecGateway \<Rightarrow> (exn + body) \<times> SunSpecGateway" where
  "connect_device cfg ev g =
     (case connect cfg ev (client g) of
        (Inl e, c1) \<Rightarrow> route_except e (g\<lparr>client := c1\<rparr>)
      | (Inr connected, c1) \<Rightarrow>
          (if connected \<and> polling_task g = None
           then (Inr (Connected_body connected (Suc (clock c1))),
                 g\<lparr>client := emit Create_task c1, gw_is_connected := connected,
                   polling_task := Some (Task (clock c1))\<rparr>)
           else (Inr (Connected_body connected (clock c1)),
                 g\<lparr>client := c1, gw_is_connected := connected\<rparr>)))"

text \<open>
  \<^verbatim>\<open>disconnect_device\<close> cancels the polling task and drops the handle, then
  disconnects the client.
\<close>

definition disconnect_device :: "env \<Rightarrow> SunSpecGateway \<Rightarrow> (exn + body) \<times> SunSpecGateway" where
  "disconnect_device ev g =
     (case polling_task g of
        None \<Rightarrow>
          (Inr (Connected_body False (clock (disconnect ev (client g)))),
           g\<lparr>client := disconnect ev (client g), gw_is_connected := False\<rparr>)
      | Some t \<Rightarrow>
          (Inr (Connected_body False (clock (disconnect ev (emit Cancel_task (client g))))),
           g\<lparr>client := disconnect ev (emit Cancel_task (client g)), gw_is_connected := False,
             polling_task := None\<rparr>))"

section \<open>Definitions used by the proofs\<close>

text \<open>Reading a decimal numeral back: the inverse of \<open>str_nat\<close>.\<close>

definition val_nat :: "string \<Rightarrow> nat" where
  "val_nat s = foldl (\<lambda>a ch. 10 * a + (of_char ch - 48)) 0 s"

text \<open>Whether \<^verbatim>\<open>model.read\<close> for model \<open>m\<close> returns normally when called at tick \<open>t\<close>.\<close>

definition read_answer :: "env \<Rightarrow> nat \<Rightarrow> int \<Rightarrow> bool" where
  "read_answer ev t m = (case read_outcome ev t m of Read_ok mo \<Rightarrow> True | _ \<Rightarrow> False)"

text \<open>Whether \<^verbatim>\<open>device.models\<close> lists an instance of model \<open>m\<close>.\<close>

definition has_model :: "SunSpecClient \<Rightarrow> int \<Rightarrow> bool" where
  "has_model c m =
     (case device c of
        None \<Rightarrow> False
      | Some d \<Rightarrow> (case map_of (models d) (IntKey m) of Some (mo # _) \<Rightarrow> True | _ \<Rightarrow> False))"

section \<open>A session to run the model on\<close>

text \<open>
  A device with the common model (listed under its id and under its name) and an inverter
  model 101 that has no name attribute. The gateway is configured to poll the models 1,
  101 and 160; the device does not have model 160. Every call succeeds, but for the reads
  of model 101 between the ticks 8 and 11, which raise: that is the second pass of the
  polling loop.
\<close>

definition ex_common :: model_obj where
  "ex_common =
     \<lparr>model_name = Some ''common'',
      points = Some [(''Mn'', \<lparr>p_value = Some (Text ''Sungrow''), p_cvalue = None\<rparr>)],
      groups = None\<rparr>"

definition ex_inverter :: model_obj where
  "ex_inverter =
     \<lparr>model_name = None,
      points = Some [(''W'', \<lparr>p_value = Some (Num 15000), p_cvalue = Some (Num 1500)\<rparr>),
                     (''Evt'', \<lparr>p_value = None, p_cvalue = None\<rparr>)],
      groups = None\<rparr>"

definition ex_models :: "(dkey, model_obj list) dict" where
  "ex_models = [(IntKey 1, [ex_common]), (NameKey ''common'', [ex_common]), (IntKey 101, [ex_inverter])]"

definition ex_env :: env where
  "ex_env =
     \<lparr>open_outcome = (\<lambda>t. None),
      scan_outcome = (\<lambda>t. Inr ex_models),
      read_outcome = (\<lambda>t m. if m = 101 \<and> 8 \<le> t \<and> t < 12 then Read_raises ''timeout''
                             else if m = 1 then Read_ok ex_common else Read_ok ex_inverter),
      close_outcome = (\<lambda>t. None),
      sleep_cancelled = (\<lambda>t. False)\<rparr>"

definition ex_cfg :: Config where
  "ex_cfg =
     \<lparr>inverter = \<lparr>connection_type = ''tcp'', tcp = Some (default_tcp ''192.168.1.100''), rtu = None\<rparr>,
      data_collection = \<lparr>poll_interval = 30, models_to_read = [1, 101, 160], max_retries = 3,
                         retry_delay = 5\<rparr>\<rparr>"

text \<open>The gateway after \<^verbatim>\<open>startup\<close>, and after the first and the second pass of the loop.\<close>

definition ex_g1 :: SunSpecGateway where
  "ex_g1 = snd (startup ex_cfg ex_env init_gateway)"

definition ex_g2 :: SunSpecGateway where
  "ex_g2 = snd (polling_step ex_cfg ex_env ex_g1)"

definition ex_g3 :: SunSpecGateway where
  "ex_g3 = snd (polling_step ex_cfg ex_env ex_g2)"

text \<open>
  A second session: the interval is configured as 5 seconds, and the scan works at startup
  but fails from tick 3 on. After \<^verbatim>\<open>startup\<close> and a \<^verbatim>\<open>POST /device/connect\<close> the
  polling task is alive while the client is not connected.
\<close>

definition ex_cfg5 :: Config where
  "ex_cfg5 =
     \<lparr>inverter = \<lparr>connection_type = ''tcp'', tcp = Some (default_tcp ''192.168.1.100''), rtu = None\<rparr>,
      data_collection = \<lparr>poll_interval = 5, models_to_read = [1, 101, 160], max_retries = 3,
                         retry_delay = 5\<rparr>\<rparr>"

definition ex_env_rescan :: env where
  "ex_env_rescan =
     \<lparr>open_outcome = (\<lambda>t. None),
      scan_outcome = (\<lambda>t. if t < 3 then Inr ex_models else Inl ''timed out''),
      read_outcome = (\<lambda>t m. if m = 1 then Read_ok ex_common else Read_ok ex_inverter),
      close_outcome = (\<lambda>t. None),
      sleep_cancelled = (\<lambda>t. False)\<rparr>"

definition ex_h1 :: SunSpecGateway where
  "ex_h1 = snd (startup ex_cfg5 ex_env_rescan init_gateway)"

definition ex_h2 :: SunSpecGateway where
  "ex_h2 = snd (connect_device ex_cfg5 ex_env_rescan ex_h1)"

text \<open>A device that accepts the connection and does not answer the scan.\<close>

definition ex_env_noscan :: env where
  "ex_env_noscan =
     \<lparr>open_outcome = (\<lambda>t. None),
      scan_outcome = (\<lambda>t. Inl ''timed out''),
      read_outcome = (\<lambda>t m. Read_raises ''timed out''),
      close_outcome = (\<lambda>t. None),
      sleep_cancelled = (\<lambda>t. False)\<rparr>"







section \<open>The states a gateway can be in\<close>

text \<open>
  The gateway starts as \<^verbatim>\<open>__init__\<close> leaves it; from then on \<^verbatim>\<open>startup\<close>, the
  routes and, while a polling task exists, the passes of the polling loop act on it.
\<close>

inductive reachable :: "Config \<Rightarrow> env \<Rightarrow> SunSpecGateway \<Rightarrow> bool" for cfg ev where
  r_init: "reachable cfg ev init_gateway"
| r_startup: "reachable cfg ev g \<Longrightarrow> reachable cfg ev (snd (startup cfg ev g))"
| r_poll: "reachable cfg ev g \<Longrightarrow> polling_task g \<noteq> None \<Longrightarrow>
     reachable cfg ev (snd (polling_step cfg ev g))"
| r_connect: "reachable cfg ev g \<Longrightarrow> reachable cfg ev (snd (connect_device cfg ev g))"
| r_disconnect: "reachable cfg ev g \<Longrightarrow> reachable cfg ev (snd (disconnect_device ev g))"
| r_get_model: "reachable cfg ev g \<Longrightarrow> reachable cfg ev (snd (get_model_data ev m g))"

code_pred reachable .

section \<open>Model keys are injective\<close>

lemma of_char_digit: "d < 10 \<Longrightarrow> of_char (digit_char d) = (48 + d :: nat)"
  by (simp add: digit_char_def)

lemma val_str_nat: "val_nat (str_nat n) = n"
proof (induction n rule: str_nat.induct)
  case (1 n)
  show ?case
  proof (cases "n < 10")
    case True
    then show ?thesis by (simp add: str_nat.simps [of n] val_nat_def of_char_digit)
  next
    case False
    with 1 have "val_nat (str_nat (n div 10)) = n div 10" by simp
    with False show ?thesis
      by (simp add: str_nat.simps [of n] val_nat_def of_char_digit)
  qed
qed

lemma str_nat_inj: "str_nat m = str_nat n \<Longrightarrow> m = n"
  by (metis val_str_nat)

lemma str_nat_no_minus: "CHR ''-'' \<notin> set (str_nat n)"
proof (induction n rule: str_nat.induct)
  case (1 n)
  have d: "digit_char k \<noteq> CHR ''-''" if "k < 10" for k
    using of_char_digit [OF that]
    by (auto simp del: of_char_eq_iff simp add: of_char_eq_iff [symmetric])
  show ?case
  proof (cases "n < 10")
    case True
    then show ?thesis using d [of n] by (simp add: str_nat.simps [of n])
  next
    case False
    with 1 have "CHR ''-'' \<notin> set (str_nat (n div 10))" by simp
    with False show ?thesis using d [of "n mod 10"] by (simp add: str_nat.simps [of n])
  qed
qed

lemma str_nat_nonempty: "str_nat n \<noteq> []"
  by (subst str_nat.simps) simp

lemma str_nat_hd: "hd (str_nat n) \<noteq> CHR ''-''"
  using str_nat_no_minus [of n] str_nat_nonempty [of n] by (metis hd_in_set)

lemma str_int_inj: "str_int i = str_int j \<Longrightarrow> i = j"
proof -
  assume eq: "str_int i = str_int j"
  show ?thesis
  proof (cases "i < 0")
    case True
    show ?thesis
    proof (cases "j < 0")
      case True
      with \<open>i < 0\<close> eq have "nat (- i) = nat (- j)" by (simp add: str_int_def str_nat_inj)
      with True \<open>i < 0\<close> show ?thesis by simp
    next
      case False
      with \<open>i < 0\<close> eq have "CHR ''-'' # str_nat (nat (- i)) = str_nat (nat j)"
        by (simp add: str_int_def)
      then have "hd (str_nat (nat j)) = CHR ''-''" by (metis list.sel(1))
      with str_nat_hd show ?thesis by blast
    qed
  next
    case False
    show ?thesis
    proof (cases "j < 0")
      case True
      with False eq have "str_nat (nat i) = CHR ''-'' # str_nat (nat (- j))"
        by (simp add: str_int_def)
      then have "hd (str_nat (nat i)) = CHR ''-''" by (metis list.sel(1))
      with str_nat_hd show ?thesis by blast
    next
      case f2: False
      with False eq have "nat i = nat j" by (simp add: str_int_def str_nat_inj)
      with False f2 show ?thesis by simp
    qed
  qed
qed

lemma model_key_inj [simp]: "model_key a = model_key b \<longleftrightarrow> a = b"
  by (auto simp: model_key_def dest: str_int_inj)

section \<open>The trace and the clock\<close>

lemma trace_emit [simp]: "trace (emit e c) = trace c @ [e]"
  and clock_emit [simp]: "clock (emit e c) = Suc (clock c)"
  and device_emit [simp]: "device (emit e c) = device c"
  and is_connected_emit [simp]: "is_connected (emit e c) = is_connected c"
  and available_models_emit [simp]: "available_models (emit e c) = available_models c"
  and cached_data_emit [simp]: "cached_data (emit e c) = cached_data c"
  and last_read_time_emit [simp]: "last_read_time (emit e c) = last_read_time c"
  by (simp_all add: emit_def)

lemma new_events_append: "trace c' = trace c @ evs \<Longrightarrow> new_events c c' = evs"
  by (simp add: new_events_def)

section \<open>The read loop of the client\<close>

text \<open>What one call of \<open>read_model\<close> can do.\<close>

lemma read_model_cases:
  assumes "read_model ev m c = (r, c')"
  shows "(r = Inr Empty_dict \<and> c' = c \<and> \<not> has_model c m)
       \<or> (r = Inr Empty_dict \<and> c' = emit Log_error (emit (Read_call m False) c)
            \<and> (\<exists>msg. read_outcome ev (clock c) m = Read_raises msg))
       \<or> (r = Inl CancelledError \<and> c' = emit (Read_call m False) c
            \<and> read_outcome ev (clock c) m = Read_cancelled)
       \<or> (\<exists>rd mo. r = Inr (Model_dict rd) \<and> c' = emit (Read_call m True) c
            \<and> read_outcome ev (clock c) m = Read_ok mo
            \<and> r_model_id rd = m \<and> r_points rd = points_data mo
            \<and> r_timestamp rd = Suc (clock c))"
  using assms
  by (auto simp: read_model_def has_model_def Let_def
        split: option.splits list.splits read_result.splits)

text \<open>The four ways one pass of the loop of \<open>read_data\<close> goes on.\<close>

lemma read_loop_Cons_cases:
  assumes "read_loop ev (m # rest) data c = (r, c')"
  shows "(map_of (available_models c) m = None
            \<and> read_loop ev rest data (emit Log_warning c) = (r, c'))
       \<or> (map_of (available_models c) m \<noteq> None \<and> \<not> has_model c m
            \<and> read_loop ev rest data c = (r, c'))
       \<or> (map_of (available_models c) m \<noteq> None
            \<and> (\<exists>msg. read_outcome ev (clock c) m = Read_raises msg)
            \<and> read_loop ev rest data (emit Log_error (emit (Read_call m False) c)) = (r, c'))
       \<or> (map_of (available_models c) m \<noteq> None
            \<and> read_outcome ev (clock c) m = Read_cancelled
            \<and> r = Inl CancelledError \<and> c' = emit (Read_call m False) c)
       \<or> (map_of (available_models c) m \<noteq> None
            \<and> (\<exists>rd mo. read_outcome ev (clock c) m = Read_ok mo
                 \<and> r_model_id rd = m \<and> r_points rd = points_data mo
                 \<and> r_timestamp rd = Suc (clock c)
                 \<and> read_loop ev rest (AList.update (model_key m) (Model_dict rd) data)
                      (emit (Read_call m True) c) = (r, c')))"
proof (cases "map_of (available_models c) m = None")
  case True
  with assms show ?thesis by simp
next
  case False
  obtain r1 c1 where rm: "read_model ev m c = (r1, c1)" by (cases "read_model ev m c")
  from read_model_cases [OF rm] False assms rm show ?thesis
    by (elim disjE exE conjE) auto
qed

lemma read_loop_frame:
  "read_loop ev ids data c = (r, c') \<Longrightarrow>
     \<exists>evs. trace c' = trace c @ evs \<and> clock c' = clock c + length evs
       \<and> device c' = device c \<and> is_connected c' = is_connected c
       \<and> available_models c' = available_models c
       \<and> cached_data c' = cached_data c \<and> last_read_time c' = last_read_time c"
proof (induction ids arbitrary: data c)
  case Nil
  then show ?case by simp
next
  case (Cons m rest)
  from read_loop_Cons_cases [OF Cons.prems] show ?case
  proof (elim disjE conjE exE)
    assume "read_loop ev rest data (emit Log_warning c) = (r, c')"
    from Cons.IH [OF this] show ?thesis by auto
  next
    assume "read_loop ev rest data c = (r, c')"
    from Cons.IH [OF this] show ?thesis by auto
  next
    assume "read_loop ev rest data (emit Log_error (emit (Read_call m False) c)) = (r, c')"
    from Cons.IH [OF this] show ?thesis by auto
  next
    assume "c' = emit (Read_call m False) c"
    then show ?thesis by simp
  next
    fix rd
    assume "read_loop ev rest (AList.update (model_key m) (Model_dict rd) data)
              (emit (Read_call m True) c) = (r, c')"
    from Cons.IH [OF this] show ?thesis by auto
  qed
qed

text \<open>Every call of \<open>model.read\<close> the loop makes is for a model of the list that is in the registry,
  and its flag is the answer the device gave at the time of the call.\<close>

lemma read_loop_events:
  "read_loop ev ids data c = (r, c') \<Longrightarrow> trace c' = trace c @ evs \<Longrightarrow>
     Read_call m ok \<in> set evs \<Longrightarrow>
     m \<in> set ids \<and> map_of (available_models c) m \<noteq> None
       \<and> (\<exists>t. clock c \<le> t \<and> t < clock c' \<and> ok = read_answer ev t m)"
proof (induction ids arbitrary: data c evs)
  case Nil
  then show ?case by simp
next
  case (Cons a rest)
  from read_loop_Cons_cases [OF Cons.prems(1)] show ?case
  proof (elim disjE conjE exE)
    assume 1: "read_loop ev rest data (emit Log_warning c) = (r, c')"
    from read_loop_frame [OF 1] obtain evs2 where
      2: "trace c' = trace (emit Log_warning c) @ evs2" by blast
    with Cons.prems have "evs = Log_warning # evs2" by simp
    with Cons.prems have "Read_call m ok \<in> set evs2" by simp
    from Cons.IH [OF 1 2 this] show ?thesis by (fastforce dest: Suc_leD)
  next
    assume 1: "read_loop ev rest data c = (r, c')"
    from Cons.IH [OF 1 Cons.prems(2) Cons.prems(3)] show ?thesis by auto
  next
    fix msg
    assume 0: "read_outcome ev (clock c) a = Read_raises msg"
      and na: "map_of (available_models c) a \<noteq> None"
    assume 1: "read_loop ev rest data (emit Log_error (emit (Read_call a False) c)) = (r, c')"
    from read_loop_frame [OF 1] obtain evs2 where
      2: "trace c' = trace (emit Log_error (emit (Read_call a False) c)) @ evs2"
      and 3: "clock c' = clock (emit Log_error (emit (Read_call a False) c)) + length evs2"
      by blast
    with Cons.prems have e: "evs = Read_call a False # Log_error # evs2" by simp
    show ?thesis
    proof (cases "Read_call m ok \<in> set evs2")
      case True
      from Cons.IH [OF 1 2 True] show ?thesis by (fastforce dest: Suc_leD)
    next
      case False
      with e Cons.prems have "m = a" "ok = False" by auto
      with 0 na 3 show ?thesis by (auto simp: read_answer_def intro!: exI [of _ "clock c"])
    qed
  next
    assume 0: "read_outcome ev (clock c) a = Read_cancelled"
      and na: "map_of (available_models c) a \<noteq> None"
      and 1: "c' = emit (Read_call a False) c"
    with Cons.prems have "m = a" "ok = False" by auto
    with 0 na 1 show ?thesis by (auto simp: read_answer_def intro!: exI [of _ "clock c"])
  next
    fix rd mo
    assume 0: "read_outcome ev (clock c) a = Read_ok mo"
      and na: "map_of (available_models c) a \<noteq> None"
    assume 1: "read_loop ev rest (AList.update (model_key a) (Model_dict rd) data)
              (emit (Read_call a True) c) = (r, c')"
    from read_loop_frame [OF 1] obtain evs2 where
      2: "trace c' = trace (emit (Read_call a True) c) @ evs2"
      and 3: "clock c' = clock (emit (Read_call a True) c) + length evs2"
      by blast
    with Cons.prems have e: "evs = Read_call a True # evs2" by simp
    show ?thesis
    proof (cases "Read_call m ok \<in> set evs2")
      case True
      from Cons.IH [OF 1 2 True] show ?thesis by (fastforce dest: Suc_leD)
    next
      case False
      with e Cons.prems have "m = a" "ok = True" by auto
      with 0 na 3 show ?thesis by (auto simp: read_answer_def intro!: exI [of _ "clock c"])
    qed
  qed
qed

lemma has_model_emit [simp]: "has_model (emit e c) m = has_model c m"
  by (simp add: has_model_def)

lemma has_model_cong: "device c' = device c \<Longrightarrow> has_model c' m = has_model c m"
  by (simp add: has_model_def)

text \<open>Only a cancellation takes the loop out early.\<close>

lemma read_loop_raises:
  "read_loop ev ids data c = (Inl e, c') \<Longrightarrow>
     e = CancelledError
       \<and> (\<exists>t m. clock c \<le> t \<and> t < clock c' \<and> read_outcome ev t m = Read_cancelled)"
proof (induction ids arbitrary: data c)
  case Nil
  then show ?case by simp
next
  case (Cons a rest)
  from read_loop_Cons_cases [OF Cons.prems] show ?case
  proof (elim disjE conjE exE)
    assume "read_loop ev rest data (emit Log_warning c) = (Inl e, c')"
    from Cons.IH [OF this] show ?thesis by (fastforce dest: Suc_leD)
  next
    assume "read_loop ev rest data c = (Inl e, c')"
    from Cons.IH [OF this] show ?thesis .
  next
    assume "read_loop ev rest data (emit Log_error (emit (Read_call a False) c)) = (Inl e, c')"
    from Cons.IH [OF this] show ?thesis by (fastforce dest: Suc_leD)
  next
    assume "read_outcome ev (clock c) a = Read_cancelled" "Inl e = Inl CancelledError"
      "c' = emit (Read_call a False) c"
    then show ?thesis by (auto intro!: exI [of _ "clock c"])
  next
    fix rd
    assume "read_loop ev rest (AList.update (model_key a) (Model_dict rd) data)
              (emit (Read_call a True) c) = (Inl e, c')"
    from Cons.IH [OF this] show ?thesis by (fastforce dest: Suc_leD)
  qed
qed

lemma read_loop_returns:
  "\<forall>t m. read_outcome ev t m \<noteq> Read_cancelled \<Longrightarrow> \<exists>data'. fst (read_loop ev ids data c) = Inr data'"
proof -
  assume nc: "\<forall>t m. read_outcome ev t m \<noteq> Read_cancelled"
  obtain r c' where rl: "read_loop ev ids data c = (r, c')" by (cases "read_loop ev ids data c")
  show ?thesis
  proof (cases r)
    case (Inl e)
    with rl read_loop_raises [of ev ids data c e c'] nc show ?thesis by blast
  next
    case (Inr d)
    with rl show ?thesis by simp
  qed
qed

text \<open>An entry of the dictionary changes only by a read of its model that returned.\<close>

lemma read_loop_changes:
  "read_loop ev ids data c = (Inr data', c') \<Longrightarrow> trace c' = trace c @ evs \<Longrightarrow>
     map_of data' k \<noteq> map_of data k \<Longrightarrow>
     \<exists>m. k = model_key m \<and> Read_call m True \<in> set evs"
proof (induction ids arbitrary: data c evs)
  case Nil
  then show ?case by simp
next
  case (Cons a rest)
  from read_loop_Cons_cases [OF Cons.prems(1)] show ?case
  proof (elim disjE conjE exE)
    assume 1: "read_loop ev rest data (emit Log_warning c) = (Inr data', c')"
    from read_loop_frame [OF 1] obtain evs2 where
      2: "trace c' = trace (emit Log_warning c) @ evs2" by blast
    with Cons.prems have e: "evs = Log_warning # evs2" by simp
    from Cons.IH [OF 1 2 Cons.prems(3)] e show ?thesis by auto
  next
    assume 1: "read_loop ev rest data c = (Inr data', c')"
    from Cons.IH [OF 1 Cons.prems(2) Cons.prems(3)] show ?thesis .
  next
    assume 1: "read_loop ev rest data (emit Log_error (emit (Read_call a False) c)) = (Inr data', c')"
    from read_loop_frame [OF 1] obtain evs2 where
      2: "trace c' = trace (emit Log_error (emit (Read_call a False) c)) @ evs2" by blast
    with Cons.prems have e: "evs = Read_call a False # Log_error # evs2" by simp
    from Cons.IH [OF 1 2 Cons.prems(3)] e show ?thesis by auto
  next
    assume "Inr data' = Inl CancelledError"
    then show ?thesis by simp
  next
    fix rd
    assume 1: "read_loop ev rest (AList.update (model_key a) (Model_dict rd) data)
              (emit (Read_call a True) c) = (Inr data', c')"
    from read_loop_frame [OF 1] obtain evs2 where
      2: "trace c' = trace (emit (Read_call a True) c) @ evs2" by blast
    with Cons.prems have e: "evs = Read_call a True # evs2" by simp
    show ?thesis
    proof (cases "map_of data' k = map_of (AList.update (model_key a) (Model_dict rd) data) k")
      case True
      with Cons.prems(3) have "k = model_key a"
        by (auto simp: update_conv' split: if_splits)
      with e show ?thesis by auto
    next
      case False
      from Cons.IH [OF 1 2 False] e show ?thesis by auto
    qed
  qed
qed

text \<open>A read that returned leaves its reading, stamped during the loop, under the model's key.\<close>

lemma read_loop_fresh:
  "read_loop ev ids data c = (Inr data', c') \<Longrightarrow> trace c' = trace c @ evs \<Longrightarrow>
     Read_call m True \<in> set evs \<Longrightarrow>
     \<exists>rd t mo. map_of data' (model_key m) = Some (Model_dict rd) \<and> r_model_id rd = m
       \<and> clock c \<le> t \<and> t < clock c' \<and> read_outcome ev t m = Read_ok mo
       \<and> r_points rd = points_data mo \<and> r_timestamp rd = Suc t"
proof (induction ids arbitrary: data c evs)
  case Nil
  then show ?case by simp
next
  case (Cons a rest)
  from read_loop_Cons_cases [OF Cons.prems(1)] show ?case
  proof (elim disjE conjE exE)
    assume 1: "read_loop ev rest data (emit Log_warning c) = (Inr data', c')"
    from read_loop_frame [OF 1] obtain evs2 where
      2: "trace c' = trace (emit Log_warning c) @ evs2" by blast
    with Cons.prems have "evs = Log_warning # evs2" by simp
    with Cons.prems have "Read_call m True \<in> set evs2" by simp
    from Cons.IH [OF 1 2 this] show ?thesis by (fastforce dest: Suc_leD)
  next
    assume 1: "read_loop ev rest data c = (Inr data', c')"
    from Cons.IH [OF 1 Cons.prems(2) Cons.prems(3)] show ?thesis .
  next
    assume 1: "read_loop ev rest data (emit Log_error (emit (Read_call a False) c)) = (Inr data', c')"
    from read_loop_frame [OF 1] obtain evs2 where
      2: "trace c' = trace (emit Log_error (emit (Read_call a False) c)) @ evs2" by blast
    with Cons.prems have "evs = Read_call a False # Log_error # evs2" by simp
    with Cons.prems have "Read_call m True \<in> set evs2" by simp
    from Cons.IH [OF 1 2 this] show ?thesis by (fastforce dest: Suc_leD)
  next
    assume "Inr data' = Inl CancelledError"
    then show ?thesis by simp
  next
    fix rd :: reading and mo
    assume ts: "r_model_id rd = a" "r_timestamp rd = Suc (clock c)"
      "read_outcome ev (clock c) a = Read_ok mo" "r_points rd = points_data mo"
    assume 1: "read_loop ev rest (AList.update (model_key a) (Model_dict rd) data)
              (emit (Read_call a True) c) = (Inr data', c')"
    from read_loop_frame [OF 1] obtain evs2 where
      2: "trace c' = trace (emit (Read_call a True) c) @ evs2"
      and 3: "clock c' = clock (emit (Read_call a True) c) + length evs2" by blast
    with Cons.prems have e: "evs = Read_call a True # evs2" by simp
    show ?thesis
    proof (cases "Read_call m True \<in> set evs2")
      case True
      from Cons.IH [OF 1 2 True] show ?thesis by (fastforce dest: Suc_leD)
    next
      case False
      with e Cons.prems have ma: "m = a" by simp
      have "map_of data' (model_key m)
              = map_of (AList.update (model_key a) (Model_dict rd) data) (model_key m)"
      proof (rule ccontr)
        assume "\<not> ?thesis"
        from read_loop_changes [OF 1 2 this] False show False by simp
      qed
      with ma ts 3 show ?thesis
        by (auto simp: update_conv' intro!: exI [of _ rd] exI [of _ "clock c"])
    qed
  qed
qed

lemma read_loop_distinct:
  "read_loop ev ids data c = (Inr data', c') \<Longrightarrow> distinct (map fst data) \<Longrightarrow>
     distinct (map fst data')"
proof (induction ids arbitrary: data c)
  case Nil
  then show ?case by simp
next
  case (Cons a rest)
  from read_loop_Cons_cases [OF Cons.prems(1)] show ?case
    using Cons.IH Cons.prems(2) by (elim disjE conjE exE) (auto simp: distinct_update)
qed

text \<open>The loop does not stop at a failure: every model of the list that is in the registry and
  on the device is read.\<close>

lemma read_loop_attempts:
  "read_loop ev ids data c = (Inr data', c') \<Longrightarrow> trace c' = trace c @ evs \<Longrightarrow>
     m \<in> set ids \<Longrightarrow> map_of (available_models c) m \<noteq> None \<Longrightarrow> has_model c m \<Longrightarrow>
     \<exists>ok. Read_call m ok \<in> set evs"
proof (induction ids arbitrary: data c evs)
  case Nil
  then show ?case by simp
next
  case (Cons a rest)
  from read_loop_Cons_cases [OF Cons.prems(1)] show ?case
  proof (elim disjE conjE exE)
    assume 0: "map_of (available_models c) a = None"
    assume 1: "read_loop ev rest data (emit Log_warning c) = (Inr data', c')"
    from read_loop_frame [OF 1] obtain evs2 where
      2: "trace c' = trace (emit Log_warning c) @ evs2" by blast
    with Cons.prems have e: "evs = Log_warning # evs2" by simp
    from 0 Cons.prems have "m \<in> set rest" by auto
    from Cons.IH [OF 1 2 this] Cons.prems e show ?thesis by auto
  next
    assume 0: "\<not> has_model c a"
    assume 1: "read_loop ev rest data c = (Inr data', c')"
    from 0 Cons.prems have "m \<in> set rest" by auto
    from Cons.IH [OF 1 Cons.prems(2) this] Cons.prems show ?thesis by auto
  next
    assume 1: "read_loop ev rest data (emit Log_error (emit (Read_call a False) c)) = (Inr data', c')"
    from read_loop_frame [OF 1] obtain evs2 where
      2: "trace c' = trace (emit Log_error (emit (Read_call a False) c)) @ evs2" by blast
    with Cons.prems have e: "evs = Read_call a False # Log_error # evs2" by simp
    show ?thesis
    proof (cases "m = a")
      case True
      with e show ?thesis by auto
    next
      case False
      with Cons.prems have "m \<in> set rest" by auto
      from Cons.IH [OF 1 2 this] Cons.prems e show ?thesis by auto
    qed
  next
    assume "Inr data' = Inl CancelledError"
    then show ?thesis by simp
  next
    fix rd
    assume 1: "read_loop ev rest (AList.update (model_key a) (Model_dict rd) data)
              (emit (Read_call a True) c) = (Inr data', c')"
    from read_loop_frame [OF 1] obtain evs2 where
      2: "trace c' = trace (emit (Read_call a True) c) @ evs2" by blast
    with Cons.prems have e: "evs = Read_call a True # evs2" by simp
    show ?thesis
    proof (cases "m = a")
      case True
      with e show ?thesis by auto
    next
      case False
      with Cons.prems have "m \<in> set rest" by auto
      from Cons.IH [OF 1 2 this] Cons.prems e show ?thesis by auto
    qed
  qed
qed

section \<open>read_data and the table of the gateway\<close>

lemma read_data_Inr:
  assumes "read_data cfg ev mids c = (Inr data, c')"
  shows "is_connected c \<and> device c \<noteq> None
       \<and> (\<exists>c1. read_loop ev (requested_ids cfg mids) [] c = (Inr data, c1)
             \<and> c' = c1\<lparr>cached_data := data, last_read_time := Some (clock c1)\<rparr>)"
proof -
  from assms have ic: "is_connected c" and dv: "device c \<noteq> None"
    by (auto simp: read_data_def split: if_splits)
  obtain r1 c1 where rl: "read_loop ev (requested_ids cfg mids) [] c = (r1, c1)"
    by (cases "read_loop ev (requested_ids cfg mids) [] c")
  with assms ic dv show ?thesis
    by (cases r1) (simp_all add: read_data_def)
qed

lemma read_data_Inl:
  assumes "read_data cfg ev mids c = (Inl e, c')"
  shows "(e = SunSpecDeviceError ''Device not connected'' \<and> c' = c
            \<and> \<not> (is_connected c \<and> device c \<noteq> None))
       \<or> (e = CancelledError \<and> is_connected c \<and> device c \<noteq> None
            \<and> read_loop ev (requested_ids cfg mids) [] c = (Inl e, c'))"
proof (cases "is_connected c \<and> device c \<noteq> None")
  case False
  with assms show ?thesis by (auto simp: read_data_def split: if_splits)
next
  case True
  obtain r1 c1 where rl: "read_loop ev (requested_ids cfg mids) [] c = (r1, c1)"
    by (cases "read_loop ev (requested_ids cfg mids) [] c")
  show ?thesis
  proof (cases r1)
    case (Inl e1)
    with assms True rl have "e1 = e" "c1 = c'" by (simp_all add: read_data_def)
    with rl Inl read_loop_raises [of ev "requested_ids cfg mids" "[]" c e c'] True
    show ?thesis by simp
  next
    case (Inr d)
    with assms True rl show ?thesis by (simp add: read_data_def)
  qed
qed

lemma read_data_frame:
  assumes "read_data cfg ev mids c = (r, c')"
  shows "\<exists>evs. trace c' = trace c @ evs \<and> clock c' = clock c + length evs
       \<and> device c' = device c \<and> is_connected c' = is_connected c
       \<and> available_models c' = available_models c"
proof (cases r)
  case (Inl e)
  from read_data_Inl [OF assms [unfolded Inl]] show ?thesis
  proof (elim disjE conjE)
    assume "c' = c"
    then show ?thesis by simp
  next
    assume "read_loop ev (requested_ids cfg mids) [] c = (Inl e, c')"
    from read_loop_frame [OF this] show ?thesis by blast
  qed
next
  case (Inr data)
  from read_data_Inr [OF assms [unfolded Inr]] obtain c1 where
    1: "read_loop ev (requested_ids cfg mids) [] c = (Inr data, c1)"
    and 2: "c' = c1\<lparr>cached_data := data, last_read_time := Some (clock c1)\<rparr>" by blast
  from read_loop_frame [OF 1] obtain evs where
    "trace c1 = trace c @ evs" "clock c1 = clock c + length evs" "device c1 = device c"
    "is_connected c1 = is_connected c" "available_models c1 = available_models c" by blast
  with 2 show ?thesis by simp
qed

lemma map_of_fold_store_entry:
  "distinct (map fst data) \<Longrightarrow>
     map_of (fold store_entry data ld) k
       = (case map_of data k of None \<Rightarrow> map_of ld k | Some v \<Rightarrow> Some v)"
proof (induction data arbitrary: ld)
  case Nil
  then show ?case by simp
next
  case (Cons p data)
  obtain k' v' where p: "p = (k', v')" by (cases p)
  from Cons.prems p have kn: "map_of data k' = None"
    by (simp add: map_of_eq_None_iff)
  from Cons.prems have "distinct (map fst data)" by simp
  from Cons.IH [OF this, of "AList.update k' v' ld"] p kn
  show ?case by (auto simp: update_conv' split: option.splits)
qed

section \<open>The example session, evaluated\<close>

lemma ex_g1_eval:
  "ex_g1 =
     \<lparr>client =
        \<lparr>device = Some \<lparr>dev_transport = TCP (default_tcp ''192.168.1.100''), models = ex_models\<rparr>,
         is_connected = True, last_read_time = None, cached_data = [],
         available_models = [(1, ''common''), (101, default_name 101)],
         clock = 3,
         trace = [Open_call (TCP (default_tcp ''192.168.1.100'')), Scan_call, Create_task]\<rparr>,
      gw_is_connected = True, last_data = [], polling_task = Some (Task 2)\<rparr>"
  by (simp add: ex_g1_def startup_def connect_def open_step_def connect_tcp_def
      discover_models_def ex_cfg_def ex_env_def init_gateway_def init_client_def emit_def
      ex_models_def ex_common_def ex_inverter_def)

lemma ex_has_model [simp]:
  "map_of ex_models (IntKey 1) = Some [ex_common]"
  "map_of ex_models (IntKey 101) = Some [ex_inverter]"
  "map_of ex_models (IntKey 160) = None"
  "map_of ex_models (IntKey 999) = None"
  by (simp_all add: ex_models_def)

lemma ex_g2_eval:
  "ex_g2 =
     \<lparr>client =
        \<lparr>device = Some \<lparr>dev_transport = TCP (default_tcp ''192.168.1.100''), models = ex_models\<rparr>,
         is_connected = True, last_read_time = Some 6,
         cached_data =
           [(model_key 1, Model_dict \<lparr>r_model_id = 1, r_model_name = ''common'',
                             r_points = points_data ex_common, r_timestamp = 4\<rparr>),
            (model_key 101, Model_dict \<lparr>r_model_id = 101, r_model_name = default_name 101,
                             r_points = points_data ex_inverter, r_timestamp = 5\<rparr>)],
         available_models = [(1, ''common''), (101, default_name 101)],
         clock = 7,
         trace = [Open_call (TCP (default_tcp ''192.168.1.100'')), Scan_call, Create_task,
                  Read_call 1 True, Read_call 101 True, Log_warning, Sleep_call 30]\<rparr>,
      gw_is_connected = True,
      last_data =
           [(model_key 1, Model_dict \<lparr>r_model_id = 1, r_model_name = ''common'',
                             r_points = points_data ex_common, r_timestamp = 4\<rparr>),
            (model_key 101, Model_dict \<lparr>r_model_id = 101, r_model_name = default_name 101,
                             r_points = points_data ex_inverter, r_timestamp = 5\<rparr>)],
      polling_task = Some (Task 2)\<rparr>"
  by (simp add: ex_g2_def ex_g1_eval polling_step_def read_data_def requested_ids_def read_model_def
      registry_name_def ex_cfg_def ex_env_def emit_def)

lemma ex_g3_eval:
  "ex_g3 =
     \<lparr>client =
        \<lparr>device = Some \<lparr>dev_transport = TCP (default_tcp ''192.168.1.100''), models = ex_models\<rparr>,
         is_connected = True, last_read_time = Some 11,
         cached_data =
           [(model_key 1, Model_dict \<lparr>r_model_id = 1, r_model_name = ''common'',
                             r_points = points_data ex_common, r_timestamp = 8\<rparr>)],
         available_models = [(1, ''common''), (101, default_name 101)],
         clock = 12,
         trace = [Open_call (TCP (default_tcp ''192.168.1.100'')), Scan_call, Create_task,
                  Read_call 1 True, Read_call 101 True, Log_warning, Sleep_call 30,
                  Read_call 1 True, Read_call 101 False, Log_error, Log_warning, Sleep_call 30]\<rparr>,
      gw_is_connected = True,
      last_data =
           [(model_key 1, Model_dict \<lparr>r_model_id = 1, r_model_name = ''common'',
                             r_points = points_data ex_common, r_timestamp = 8\<rparr>),
            (model_key 101, Model_dict \<lparr>r_model_id = 101, r_model_name = default_name 101,
                             r_points = points_data ex_inverter, r_timestamp = 5\<rparr>)],
      polling_task = Some (Task 2)\<rparr>"
  by (simp add: ex_g3_def ex_g2_eval polling_step_def read_data_def requested_ids_def read_model_def
      registry_name_def ex_cfg_def ex_env_def emit_def)


lemma ex_step3_eval: "polling_step ex_cfg ex_env ex_g2 = (Task_running, ex_g3)"
  unfolding ex_g3_eval
  by (simp add: ex_g2_eval polling_step_def read_data_def requested_ids_def read_model_def
      registry_name_def ex_cfg_def ex_env_def emit_def)

section \<open>C8: GET /data/live\<close>

text \<open>
  C8. \<^verbatim>\<open>GET /data/live\<close> answers 503 when the gateway is not connected; 404 when it
  is connected and the table \<open>last_data\<close> is empty, as it is right after the connect
  and before the first pass of the polling loop; and the whole table otherwise.
\<close>

theorem get_live_data_responses:
  "(\<not> gw_is_connected g \<longrightarrow> get_live_data g = Inl (HTTPException 503 ''Device not connected''))
   \<and> (gw_is_connected g \<and> last_data g = [] \<longrightarrow>
        get_live_data g = Inl (HTTPException 404 ''No data available''))
   \<and> (gw_is_connected g \<and> last_data g \<noteq> [] \<longrightarrow>
        get_live_data g = Inr (Live_data (last_data g)))"
  by (simp add: get_live_data_def)

theorem get_live_data_responses_witness:
  "get_live_data init_gateway = Inl (HTTPException 503 ''Device not connected'')
   \<and> get_live_data ex_g1 = Inl (HTTPException 404 ''No data available'')
   \<and> get_live_data ex_g2 = Inr (Live_data (last_data ex_g2))"
proof -
  have 1: "\<not> gw_is_connected init_gateway" by (simp add: init_gateway_def)
  have 2: "gw_is_connected ex_g1 \<and> last_data ex_g1 = []" by (simp add: ex_g1_eval)
  have 3: "gw_is_connected ex_g2 \<and> last_data ex_g2 \<noteq> []" by (simp add: ex_g2_eval)
  from 1 2 3 get_live_data_responses [of init_gateway] get_live_data_responses [of ex_g1]
    get_live_data_responses [of ex_g2]
  show ?thesis by blast
qed

section \<open>C10: read_data and the client's cache\<close>

text \<open>
  C10. A call of \<^verbatim>\<open>read_data\<close> that returns replaces the client's cache by the
  dictionary it built: the cache (and what \<^verbatim>\<open>get_cached_data\<close> reports) has an entry
  for exactly the models of which a read returned during this call, whatever the cache held
  before, so a model whose reads failed has no entry; each entry is the reading the device
  gave; and \<open>last_read_time\<close> is set to the time of the return, also when the
  dictionary is empty.
\<close>

theorem read_data_replaces_cache:
  assumes "read_data cfg ev mids c = (Inr data, c')"
  shows "cached_data c' = data \<and> cd_data (get_cached_data c') = data
       \<and> (\<forall>k. (map_of (cached_data c') k \<noteq> None)
               = (\<exists>m. k = model_key m \<and> Read_call m True \<in> set (new_events c c')))
       \<and> (\<forall>m. Read_call m True \<in> set (new_events c c') \<longrightarrow>
              (\<exists>rd t mo. map_of (cached_data c') (model_key m) = Some (Model_dict rd)
                 \<and> r_model_id rd = m \<and> clock c \<le> t \<and> t < clock c'
                 \<and> read_outcome ev t m = Read_ok mo \<and> r_points rd = points_data mo
                 \<and> r_timestamp rd = Suc t))
       \<and> (\<forall>m ok. Read_call m ok \<in> set (new_events c c') \<longrightarrow>
              m \<in> set (requested_ids cfg mids) \<and> map_of (available_models c) m \<noteq> None
                \<and> (\<exists>t. clock c \<le> t \<and> t < clock c' \<and> ok = read_answer ev t m))
       \<and> last_read_time c' = Some (clock c')
       \<and> cd_last_read_time (get_cached_data c') = Some (clock c')
       \<and> clock c \<le> clock c'"
proof -
  from read_data_Inr [OF assms] obtain c1 where
    rl: "read_loop ev (requested_ids cfg mids) [] c = (Inr data, c1)"
    and c': "c' = c1\<lparr>cached_data := data, last_read_time := Some (clock c1)\<rparr>" by blast
  from read_loop_frame [OF rl] obtain evs where
    tr: "trace c1 = trace c @ evs" and ck: "clock c1 = clock c + length evs" by blast
  from tr c' have ne: "new_events c c' = evs" by (simp add: new_events_def)
  from c' have clk: "clock c' = clock c1" by simp
  have keys: "(map_of data k \<noteq> None) = (\<exists>m. k = model_key m \<and> Read_call m True \<in> set evs)" for k
  proof
    assume "map_of data k \<noteq> None"
    then have "map_of data k \<noteq> map_of [] k" by simp
    from read_loop_changes [OF rl tr this] show "\<exists>m. k = model_key m \<and> Read_call m True \<in> set evs" .
  next
    assume "\<exists>m. k = model_key m \<and> Read_call m True \<in> set evs"
    then obtain m where "k = model_key m" "Read_call m True \<in> set evs" by blast
    with read_loop_fresh [OF rl tr] show "map_of data k \<noteq> None" by fastforce
  qed
  have fresh: "\<exists>rd t mo. map_of data (model_key m) = Some (Model_dict rd)
                 \<and> r_model_id rd = m \<and> clock c \<le> t \<and> t < clock c1
                 \<and> read_outcome ev t m = Read_ok mo \<and> r_points rd = points_data mo
                 \<and> r_timestamp rd = Suc t" if "Read_call m True \<in> set evs" for m
    using read_loop_fresh [OF rl tr that] .
  have evs: "m \<in> set (requested_ids cfg mids) \<and> map_of (available_models c) m \<noteq> None
                \<and> (\<exists>t. clock c \<le> t \<and> t < clock c1 \<and> ok = read_answer ev t m)"
    if "Read_call m ok \<in> set evs" for m ok
    using read_loop_events [OF rl tr that] .
  from c' have 1: "cached_data c' = data" "last_read_time c' = Some (clock c')" by simp_all
  show ?thesis
    unfolding ne clk 1 get_cached_data_def
    using keys fresh evs ck 1 clk by simp
qed

lemma ex_read_eval:
  "read_data ex_cfg ex_env None (client ex_g2) =
     (Inr [(model_key 1, Model_dict \<lparr>r_model_id = 1, r_model_name = ''common'',
                             r_points = points_data ex_common, r_timestamp = 8\<rparr>)],
      \<lparr>device = Some \<lparr>dev_transport = TCP (default_tcp ''192.168.1.100''), models = ex_models\<rparr>,
         is_connected = True, last_read_time = Some 11,
         cached_data =
           [(model_key 1, Model_dict \<lparr>r_model_id = 1, r_model_name = ''common'',
                             r_points = points_data ex_common, r_timestamp = 8\<rparr>)],
         available_models = [(1, ''common''), (101, default_name 101)],
         clock = 11,
         trace = [Open_call (TCP (default_tcp ''192.168.1.100'')), Scan_call, Create_task,
                  Read_call 1 True, Read_call 101 True, Log_warning, Sleep_call 30,
                  Read_call 1 True, Read_call 101 False, Log_error, Log_warning]\<rparr>)"
  by (simp add: ex_g2_eval read_data_def requested_ids_def read_model_def
      registry_name_def ex_cfg_def ex_env_def emit_def)

theorem read_data_replaces_cache_witness:
  "map_of (cached_data (client ex_g2)) (model_key 101) \<noteq> None
   \<and> map_of (cached_data (snd (read_data ex_cfg ex_env None (client ex_g2)))) (model_key 101) = None
   \<and> map_of (cached_data (snd (read_data ex_cfg ex_env None (client ex_g2)))) (model_key 1) \<noteq> None
   \<and> last_read_time (snd (read_data ex_cfg ex_env None (client ex_g2))) = Some 11"
proof -
  obtain data c' where rd: "read_data ex_cfg ex_env None (client ex_g2) = (Inr data, c')"
    and ev: "new_events (client ex_g2) c'
               = [Read_call 1 True, Read_call 101 False, Log_error, Log_warning]"
    and ck: "clock c' = 11"
    by (simp add: ex_read_eval new_events_def) (simp add: ex_g2_eval)
  have before: "map_of (cached_data (client ex_g2)) (model_key 101) \<noteq> None"
    by (simp add: ex_g2_eval)
  from read_data_replaces_cache [OF rd] have
    keys: "\<forall>k. (map_of (cached_data c') k \<noteq> None)
               = (\<exists>m. k = model_key m \<and> Read_call m True \<in> set (new_events (client ex_g2) c'))"
    and lrt: "last_read_time c' = Some (clock c')" by blast+
  from keys [rule_format, of "model_key 101"] ev
  have k101: "map_of (cached_data c') (model_key 101) = None" by simp
  from keys [rule_format, of "model_key 1"] ev
  have k1: "map_of (cached_data c') (model_key 1) \<noteq> None" by simp
  from k101 k1 before lrt ck rd show ?thesis by simp
qed

section \<open>One pass of the polling loop\<close>

lemma polling_step_cases:
  assumes "polling_step cfg ev g = (st, g')"
  shows "(\<exists>data c1. read_data cfg ev (Some (models_to_read (data_collection cfg))) (client g)
                       = (Inr data, c1)
            \<and> client g' = emit (Sleep_call (poll_interval (data_collection cfg))) c1
            \<and> (\<forall>k. map_of (last_data g') k
                    = (case map_of data k of None \<Rightarrow> map_of (last_data g) k | Some v \<Rightarrow> Some v))
            \<and> st = (if sleep_cancelled ev (clock c1) then Task_returned else Task_running))
       \<or> (\<exists>c1. read_data cfg ev (Some (models_to_read (data_collection cfg))) (client g)
                       = (Inl CancelledError, c1)
            \<and> client g' = c1 \<and> last_data g' = last_data g \<and> st = Task_returned)
       \<or> (\<exists>e c1. read_data cfg ev (Some (models_to_read (data_collection cfg))) (client g)
                       = (Inl e, c1)
            \<and> e \<noteq> CancelledError
            \<and> client g' = emit (Sleep_call backoff) (emit Log_error c1)
            \<and> last_data g' = last_data g
            \<and> st = (if sleep_cancelled ev (Suc (clock c1))
                     then Task_raised CancelledError else Task_running))"
proof -
  let ?ids = "models_to_read (data_collection cfg)"
  obtain r c1 where rd: "read_data cfg ev (Some ?ids) (client g) = (r, c1)"
    by (cases "read_data cfg ev (Some ?ids) (client g)")
  show ?thesis
  proof (cases r)
    case (Inr data)
    from read_data_Inr [OF rd [unfolded Inr]] obtain c0 where
      "read_loop ev (requested_ids cfg (Some ?ids)) [] (client g) = (Inr data, c0)" by blast
    from read_loop_distinct [OF this] have d: "distinct (map fst data)" by simp
    have "map_of (if data = [] then last_data g else fold store_entry data (last_data g)) k
            = (case map_of data k of None \<Rightarrow> map_of (last_data g) k | Some v \<Rightarrow> Some v)" for k
      using map_of_fold_store_entry [OF d, of "last_data g" k] by (cases "data = []") simp_all
    with assms rd Inr show ?thesis
      by (auto simp: polling_step_def)
  next
    case (Inl e)
    with assms rd show ?thesis
      by (cases e) (auto simp: polling_step_def)
  qed
qed

section \<open>C1: failure isolation in a pass of the polling loop\<close>

text \<open>
  C1. In a pass of the polling loop, the entry of the table \<open>last_data\<close> under a key
  changes only if the key is that of a model of which a read returned in this pass. Every
  read of the pass is a read of a configured model, and whether it returned is what the
  device answered at the time of the call. Unless the task is cancelled during the pass: a
  model of which a read returned has, after the pass, the reading the device gave, with a
  time stamp of this pass; and a failure does not end the pass, every configured model that
  is in the registry and on the device is read.
\<close>

theorem polling_step_isolation:
  assumes "polling_step cfg ev g = (st, g')"
  shows "(\<forall>k. map_of (last_data g') k \<noteq> map_of (last_data g) k \<longrightarrow>
            (\<exists>m. k = model_key m \<and> Read_call m True \<in> set (new_events (client g) (client g'))))
       \<and> (\<forall>m ok. Read_call m ok \<in> set (new_events (client g) (client g')) \<longrightarrow>
              m \<in> set (models_to_read (data_collection cfg))
                \<and> (\<exists>t. clock (client g) \<le> t \<and> t < clock (client g') \<and> ok = read_answer ev t m))
       \<and> ((\<forall>t m. clock (client g) \<le> t \<and> t < clock (client g') \<longrightarrow>
                 read_outcome ev t m \<noteq> Read_cancelled) \<longrightarrow>
            (\<forall>m. Read_call m True \<in> set (new_events (client g) (client g')) \<longrightarrow>
               (\<exists>rd t mo. map_of (last_data g') (model_key m) = Some (Model_dict rd)
                  \<and> r_model_id rd = m \<and> clock (client g) \<le> t \<and> t < clock (client g')
                  \<and> read_outcome ev t m = Read_ok mo \<and> r_points rd = points_data mo
                  \<and> r_timestamp rd = Suc t))
            \<and> (is_connected (client g) \<and> device (client g) \<noteq> None \<longrightarrow>
                 (\<forall>m \<in> set (models_to_read (data_collection cfg)).
                    map_of (available_models (client g)) m \<noteq> None \<and> has_model (client g) m \<longrightarrow>
                    (\<exists>ok. Read_call m ok \<in> set (new_events (client g) (client g'))))))"
proof -
  let ?ids = "models_to_read (data_collection cfg)"
  let ?c = "client g"
  from polling_step_cases [OF assms] show ?thesis
  proof (elim disjE exE conjE)
    fix data c1
    assume rd: "read_data cfg ev (Some ?ids) ?c = (Inr data, c1)"
      and cl: "client g' = emit (Sleep_call (poll_interval (data_collection cfg))) c1"
      and ld: "\<forall>k. map_of (last_data g') k
                    = (case map_of data k of None \<Rightarrow> map_of (last_data g) k | Some v \<Rightarrow> Some v)"
    from read_data_Inr [OF rd] obtain c0 where
      rl: "read_loop ev ?ids [] ?c = (Inr data, c0)"
      and c1: "c1 = c0\<lparr>cached_data := data, last_read_time := Some (clock c0)\<rparr>"
      by (auto simp: requested_ids_def)
    from read_loop_frame [OF rl] obtain evs where
      tr: "trace c0 = trace ?c @ evs" and ck: "clock c0 = clock ?c + length evs" by blast
    from tr c1 cl have ne: "new_events ?c (client g') = evs @ [Sleep_call (poll_interval (data_collection cfg))]"
      by (simp add: new_events_def)
    from c1 cl have clk: "clock (client g') = Suc (clock c0)" by simp
    have a: "\<exists>m. k = model_key m \<and> Read_call m True \<in> set evs"
      if "map_of (last_data g') k \<noteq> map_of (last_data g) k" for k
    proof -
      from that ld have "map_of data k \<noteq> map_of [] k" by (auto split: option.splits)
      from read_loop_changes [OF rl tr this] show ?thesis .
    qed
    have b: "m \<in> set ?ids \<and> (\<exists>t. clock ?c \<le> t \<and> t < Suc (clock c0) \<and> ok = read_answer ev t m)"
      if "Read_call m ok \<in> set evs" for m ok
      using read_loop_events [OF rl tr that] by (auto intro: less_SucI)
    have c: "\<exists>rd t mo. map_of (last_data g') (model_key m) = Some (Model_dict rd)
                  \<and> r_model_id rd = m \<and> clock ?c \<le> t \<and> t < Suc (clock c0)
                  \<and> read_outcome ev t m = Read_ok mo \<and> r_points rd = points_data mo
                  \<and> r_timestamp rd = Suc t"
      if "Read_call m True \<in> set evs" for m
    proof -
      from read_loop_fresh [OF rl tr that] obtain rd t mo where
        "map_of data (model_key m) = Some (Model_dict rd)" "r_model_id rd = m"
        "clock ?c \<le> t" "t < clock c0" "read_outcome ev t m = Read_ok mo"
        "r_points rd = points_data mo" "r_timestamp rd = Suc t" by blast
      with ld show ?thesis by (auto intro: less_SucI)
    qed
    have d: "\<exists>ok. Read_call m ok \<in> set evs"
      if "m \<in> set ?ids" "map_of (available_models ?c) m \<noteq> None" "has_model ?c m" for m
      using read_loop_attempts [OF rl tr that] .
    show ?thesis unfolding ne clk using a b c d by simp
  next
    fix c1
    assume rd: "read_data cfg ev (Some ?ids) ?c = (Inl CancelledError, c1)"
      and cl: "client g' = c1" and ld: "last_data g' = last_data g"
    from read_data_Inl [OF rd] have
      rl: "read_loop ev ?ids [] ?c = (Inl CancelledError, c1)"
      by (auto simp: requested_ids_def)
    from read_loop_frame [OF rl] obtain evs where
      tr: "trace c1 = trace ?c @ evs" by blast
    then have ne: "new_events ?c c1 = evs" by (simp add: new_events_def)
    from read_loop_raises [OF rl] have
      cancelled: "\<exists>t m. clock ?c \<le> t \<and> t < clock c1 \<and> read_outcome ev t m = Read_cancelled"
      by simp
    have b: "m \<in> set ?ids \<and> (\<exists>t. clock ?c \<le> t \<and> t < clock c1 \<and> ok = read_answer ev t m)"
      if "Read_call m ok \<in> set evs" for m ok
      using read_loop_events [OF rl tr that] by auto
    from cancelled b show ?thesis unfolding cl ld ne by blast
  next
    fix e c1
    assume rd: "read_data cfg ev (Some ?ids) ?c = (Inl e, c1)" and e: "e \<noteq> CancelledError"
      and cl: "client g' = emit (Sleep_call backoff) (emit Log_error c1)"
      and ld: "last_data g' = last_data g"
    from read_data_Inl [OF rd] e have c1: "c1 = ?c"
      and nc: "\<not> (is_connected ?c \<and> device ?c \<noteq> None)" by auto
    from c1 cl have ne: "new_events ?c (client g') = [Log_error, Sleep_call backoff]"
      by (simp add: new_events_def)
    from nc show ?thesis unfolding ne ld by auto
  qed
qed

theorem polling_step_isolation_witness:
  "map_of (last_data ex_g3) (model_key 101) = map_of (last_data ex_g2) (model_key 101)
   \<and> (\<exists>rd. map_of (last_data ex_g3) (model_key 1) = Some (Model_dict rd)
          \<and> r_model_id rd = 1 \<and> clock (client ex_g2) < r_timestamp rd)
   \<and> (\<exists>ok. Read_call 101 ok \<in> set (new_events (client ex_g2) (client ex_g3)))"
proof -
  have ne: "new_events (client ex_g2) (client ex_g3)
              = [Read_call 1 True, Read_call 101 False, Log_error, Log_warning, Sleep_call 30]"
    by (simp add: ex_g2_eval ex_g3_eval new_events_def)
  have nc: "\<forall>t m. clock (client ex_g2) \<le> t \<and> t < clock (client ex_g3) \<longrightarrow>
              read_outcome ex_env t m \<noteq> Read_cancelled"
    by (simp add: ex_env_def)
  have cn: "is_connected (client ex_g2) \<and> device (client ex_g2) \<noteq> None"
    by (simp add: ex_g2_eval)
  have hm: "101 \<in> set (models_to_read (data_collection ex_cfg))
            \<and> map_of (available_models (client ex_g2)) 101 \<noteq> None \<and> has_model (client ex_g2) 101"
    by (simp add: ex_g2_eval ex_cfg_def has_model_def)
  note th = polling_step_isolation [OF ex_step3_eval]
  from th have
    a: "\<forall>k. map_of (last_data ex_g3) k \<noteq> map_of (last_data ex_g2) k \<longrightarrow>
            (\<exists>m. k = model_key m \<and> Read_call m True \<in> set (new_events (client ex_g2) (client ex_g3)))"
    by blast
  from a [rule_format, of "model_key 101"] ne
  have 1: "map_of (last_data ex_g3) (model_key 101) = map_of (last_data ex_g2) (model_key 101)"
    by auto
  from th nc have
    c: "\<forall>m. Read_call m True \<in> set (new_events (client ex_g2) (client ex_g3)) \<longrightarrow>
               (\<exists>rd t mo. map_of (last_data ex_g3) (model_key m) = Some (Model_dict rd)
                  \<and> r_model_id rd = m \<and> clock (client ex_g2) \<le> t \<and> t < clock (client ex_g3)
                  \<and> read_outcome ex_env t m = Read_ok mo \<and> r_points rd = points_data mo
                  \<and> r_timestamp rd = Suc t)"
    by blast
  from c [rule_format, of 1] ne
  have 2: "\<exists>rd. map_of (last_data ex_g3) (model_key 1) = Some (Model_dict rd)
          \<and> r_model_id rd = 1 \<and> clock (client ex_g2) < r_timestamp rd"
    by fastforce
  from th nc cn have
    d: "\<forall>m \<in> set (models_to_read (data_collection ex_cfg)).
          map_of (available_models (client ex_g2)) m \<noteq> None \<and> has_model (client ex_g2) m \<longrightarrow>
          (\<exists>ok. Read_call m ok \<in> set (new_events (client ex_g2) (client ex_g3)))"
    by blast
  from d hm have 3: "\<exists>ok. Read_call 101 ok \<in> set (new_events (client ex_g2) (client ex_g3))"
    by blast
  from 1 2 3 show ?thesis by blast
qed

section \<open>Any number of passes\<close>



section \<open>C7: discovery gating\<close>




subsection \<open>A reading left by an earlier session\<close>








section \<open>The loop ends by a cancellation only\<close>

lemma polling_step_running:
  assumes nc: "\<forall>t. \<not> sleep_cancelled ev t" "\<forall>t m. read_outcome ev t m \<noteq> Read_cancelled"
  shows "fst (polling_step cfg ev g) = Task_running"
proof -
  obtain st g' where ps: "polling_step cfg ev g = (st, g')" by (cases "polling_step cfg ev g")
  from polling_step_cases [OF ps] have "st = Task_running"
  proof (elim disjE exE conjE)
    fix c1
    assume "read_data cfg ev (Some (models_to_read (data_collection cfg))) (client g)
              = (Inl CancelledError, c1)"
    from read_data_Inl [OF this] read_loop_raises nc(2) show ?thesis by blast
  qed (use nc in simp_all)
  with ps show ?thesis by simp
qed

lemma polling_loop_running:
  assumes nc: "\<forall>t. \<not> sleep_cancelled ev t" "\<forall>t m. read_outcome ev t m \<noteq> Read_cancelled"
  shows "fst (polling_loop n cfg ev g) = Task_running"
proof (induction n arbitrary: g)
  case 0
  show ?case by simp
next
  case (Suc n)
  obtain st g1 where ps: "polling_step cfg ev g = (st, g1)" by (cases "polling_step cfg ev g")
  with polling_step_running [OF nc, of cfg g] have "st = Task_running" by simp
  with ps Suc.IH [of g1] show ?case by simp
qed

lemma polling_step_except:
  assumes "read_data cfg ev (Some (models_to_read (data_collection cfg))) (client g) = (Inl e, c1)"
    and "e \<noteq> CancelledError"
  shows "polling_step cfg ev g =
           (if sleep_cancelled ev (Suc (clock c1)) then Task_raised CancelledError else Task_running,
            g\<lparr>client := emit (Sleep_call backoff) (emit Log_error c1)\<rparr>)"
  using assms by (cases e) (simp_all add: polling_step_def)

section \<open>C9: the back-off of the polling loop\<close>

text \<open>
  C9, amended. When the body of the polling loop raises an exception that is not a
  cancellation (in \<^verbatim>\<open>read_data\<close>, outside the reads of the models), the pass logs an
  error, leaves the table as it is, sleeps the back-off and, unless it is cancelled during
  that sleep, goes on to the next pass. The back-off is 5 seconds whatever the
  configuration says: it is shorter than the poll interval exactly when the interval is
  configured above 5, as the default of 30 is. The loop ends by a cancellation only: if none
  arrives it is still running after any number of passes.
\<close>

theorem polling_backoff:
  "(\<forall>e c1. read_data cfg ev (Some (models_to_read (data_collection cfg))) (client g) = (Inl e, c1)
            \<and> e \<noteq> CancelledError \<longrightarrow>
       new_events c1 (client (snd (polling_step cfg ev g))) = [Log_error, Sleep_call 5]
       \<and> last_data (snd (polling_step cfg ev g)) = last_data g
       \<and> (\<not> sleep_cancelled ev (Suc (clock c1)) \<longrightarrow> fst (polling_step cfg ev g) = Task_running))
   \<and> backoff = 5
   \<and> (backoff < poll_interval (data_collection cfg)) = (5 < poll_interval (data_collection cfg))
   \<and> backoff < poll_interval default_data_collection
   \<and> ((\<forall>t. \<not> sleep_cancelled ev t) \<and> (\<forall>t m. read_outcome ev t m \<noteq> Read_cancelled) \<longrightarrow>
        (\<forall>n. fst (polling_loop n cfg ev g) = Task_running))"
proof -
  have a: "new_events c1 (client (snd (polling_step cfg ev g))) = [Log_error, Sleep_call 5]
       \<and> last_data (snd (polling_step cfg ev g)) = last_data g
       \<and> (\<not> sleep_cancelled ev (Suc (clock c1)) \<longrightarrow> fst (polling_step cfg ev g) = Task_running)"
    if "read_data cfg ev (Some (models_to_read (data_collection cfg))) (client g) = (Inl e, c1)"
      "e \<noteq> CancelledError" for e c1
    using polling_step_except [OF that] by (simp add: new_events_def backoff_def)
  have b: "\<forall>n. fst (polling_loop n cfg ev g) = Task_running"
    if "\<forall>t. \<not> sleep_cancelled ev t" "\<forall>t m. read_outcome ev t m \<noteq> Read_cancelled"
    using polling_loop_running [OF that] by simp
  from a b show ?thesis
    by (simp add: backoff_def default_data_collection_def)
qed

lemma ex_h1_eval:
  "ex_h1 =
     \<lparr>client =
        \<lparr>device = Some \<lparr>dev_transport = TCP (default_tcp ''192.168.1.100''), models = ex_models\<rparr>,
         is_connected = True, last_read_time = None, cached_data = [],
         available_models = [(1, ''common''), (101, default_name 101)],
         clock = 3,
         trace = [Open_call (TCP (default_tcp ''192.168.1.100'')), Scan_call, Create_task]\<rparr>,
      gw_is_connected = True, last_data = [], polling_task = Some (Task 2)\<rparr>"
  by (simp add: ex_h1_def startup_def connect_def open_step_def connect_tcp_def
      discover_models_def ex_cfg5_def ex_env_rescan_def init_gateway_def init_client_def emit_def
      ex_models_def ex_common_def ex_inverter_def)

lemma ex_h2_eval:
  "ex_h2 =
     \<lparr>client =
        \<lparr>device = Some \<lparr>dev_transport = TCP (default_tcp ''192.168.1.100''), models = []\<rparr>,
         is_connected = False, last_read_time = None, cached_data = [],
         available_models = [(1, ''common''), (101, default_name 101)],
         clock = 6,
         trace = [Open_call (TCP (default_tcp ''192.168.1.100'')), Scan_call, Create_task,
                  Open_call (TCP (default_tcp ''192.168.1.100'')), Scan_call, Log_error]\<rparr>,
      gw_is_connected = False, last_data = [], polling_task = Some (Task 2)\<rparr>"
  by (simp add: ex_h2_def ex_h1_eval connect_device_def connect_def open_step_def connect_tcp_def
      connect_except_def discover_models_def ex_cfg5_def ex_env_rescan_def emit_def)

lemma ex_h2_read_eval:
  "read_data ex_cfg5 ex_env_rescan (Some (models_to_read (data_collection ex_cfg5))) (client ex_h2)
     = (Inl (SunSpecDeviceError ''Device not connected''), client ex_h2)"
  by (simp add: ex_h2_eval read_data_def)

theorem polling_backoff_counterexample:
  "new_events (client ex_h2) (client (snd (polling_step ex_cfg5 ex_env_rescan ex_h2)))
     = [Log_error, Sleep_call 5]
   \<and> fst (polling_step ex_cfg5 ex_env_rescan ex_h2) = Task_running
   \<and> \<not> 5 < poll_interval (data_collection ex_cfg5)"
  using polling_step_except [OF ex_h2_read_eval]
  by (simp add: new_events_def backoff_def ex_env_rescan_def ex_cfg5_def)

theorem polling_backoff_witness:
  "new_events (client ex_h2) (client (snd (polling_step ex_cfg5 ex_env_rescan ex_h2)))
     = [Log_error, Sleep_call 5]
   \<and> fst (polling_step ex_cfg5 ex_env_rescan ex_h2) = Task_running
   \<and> fst (polling_loop 3 ex_cfg5 ex_env_rescan ex_h2) = Task_running"
proof -
  have nc: "(\<forall>t. \<not> sleep_cancelled ex_env_rescan t)
            \<and> (\<forall>t m. read_outcome ex_env_rescan t m \<noteq> Read_cancelled)"
    by (simp add: ex_env_rescan_def)
  have e: "SunSpecDeviceError ''Device not connected'' \<noteq> CancelledError" by simp
  note th = polling_backoff [of ex_cfg5 ex_env_rescan ex_h2]
  from th ex_h2_read_eval e have
    1: "new_events (client ex_h2) (client (snd (polling_step ex_cfg5 ex_env_rescan ex_h2)))
          = [Log_error, Sleep_call 5]
        \<and> (\<not> sleep_cancelled ex_env_rescan (Suc (clock (client ex_h2))) \<longrightarrow>
             fst (polling_step ex_cfg5 ex_env_rescan ex_h2) = Task_running)"
    by blast
  from th nc have 2: "\<forall>n. fst (polling_loop n ex_cfg5 ex_env_rescan ex_h2) = Task_running"
    by blast
  from 1 2 nc show ?thesis by blast
qed

section \<open>The steps of connect\<close>

lemma connect_tcp_cases:
  assumes "connect_tcp cfg ev c = (r, c1)"
  shows "(r = Some (SunSpecDeviceError ''TCP configuration not provided'') \<and> c1 = c
            \<and> tcp (inverter cfg) = None)
       \<or> (\<exists>tc msg. tcp (inverter cfg) = Some tc \<and> open_outcome ev (clock c) = Some msg
            \<and> r = Some (Library_error msg) \<and> c1 = emit (Open_call (TCP tc)) c)
       \<or> (\<exists>tc. tcp (inverter cfg) = Some tc \<and> open_outcome ev (clock c) = None \<and> r = None
            \<and> c1 = (emit (Open_call (TCP tc)) c)
                     \<lparr>device := Some \<lparr>dev_transport = TCP tc, models = []\<rparr>\<rparr>)"
  using assms by (auto simp: connect_tcp_def split: option.splits)

lemma connect_rtu_cases:
  assumes "connect_rtu cfg ev c = (r, c1)"
  shows "(r = Some (SunSpecDeviceError ''RTU configuration not provided'') \<and> c1 = c
            \<and> rtu (inverter cfg) = None)
       \<or> (\<exists>rc msg. rtu (inverter cfg) = Some rc \<and> open_outcome ev (clock c) = Some msg
            \<and> r = Some (Library_error msg) \<and> c1 = emit (Open_call (RTU rc)) c)
       \<or> (\<exists>rc. rtu (inverter cfg) = Some rc \<and> open_outcome ev (clock c) = None \<and> r = None
            \<and> c1 = (emit (Open_call (RTU rc)) c)
                     \<lparr>device := Some \<lparr>dev_transport = RTU rc, models = []\<rparr>\<rparr>)"
  using assms by (auto simp: connect_rtu_def split: option.splits)

text \<open>The open step raises an \<^verbatim>\<open>Exception\<close> or sets the device; it makes at most the
  constructor call.\<close>

lemma open_step_cases:
  assumes "open_step cfg ev c = (r, c1)"
  shows "(\<exists>e. r = Some e \<and> is_Exception e \<and> c1 = c)
       \<or> (\<exists>e tr. r = Some e \<and> is_Exception e \<and> c1 = emit (Open_call tr) c)
       \<or> (\<exists>tr. r = None
            \<and> c1 = (emit (Open_call tr) c)\<lparr>device := Some \<lparr>dev_transport = tr, models = []\<rparr>\<rparr>)"
proof (cases "connection_type (inverter cfg) = ''tcp''")
  case True
  with assms have "connect_tcp cfg ev c = (r, c1)" by (simp add: open_step_def)
  from connect_tcp_cases [OF this] show ?thesis by (elim disjE exE conjE) auto
next
  case False
  show ?thesis
  proof (cases "connection_type (inverter cfg) = ''rtu''")
    case True
    with False assms have "connect_rtu cfg ev c = (r, c1)" by (simp add: open_step_def)
    from connect_rtu_cases [OF this] show ?thesis by (elim disjE exE conjE) auto
  next
    case f2: False
    with False assms show ?thesis by (auto simp: open_step_def)
  qed
qed

lemma discover_models_cases:
  assumes "discover_models ev c = (r, c2)"
  shows "(\<exists>e. r = Some e \<and> is_Exception e \<and> c2 = c \<and> device c = None)
       \<or> (\<exists>e msg. r = Some e \<and> is_Exception e \<and> c2 = emit Scan_call c
             \<and> scan_outcome ev (clock c) = Inl msg)
       \<or> (\<exists>d ms. r = None \<and> device c = Some d \<and> scan_outcome ev (clock c) = Inr ms
            \<and> c2 = (emit Scan_call c)\<lparr>device := Some (d\<lparr>models := ms\<rparr>),
                                       available_models := fold store_model ms []\<rparr>)"
  using assms by (auto simp: discover_models_def split: option.splits sum.splits)

text \<open>The three ways \<open>connect\<close> ends; it never raises.\<close>

lemma connect_cases:
  assumes "connect cfg ev c = (r, c')"
  shows "(\<exists>e c1. open_step cfg ev c = (Some e, c1) \<and> r = Inr False
            \<and> c' = (emit Log_error c1)\<lparr>is_connected := False\<rparr>)
       \<or> (\<exists>e c1 c2. open_step cfg ev c = (None, c1) \<and> discover_models ev c1 = (Some e, c2)
            \<and> r = Inr False \<and> c' = (emit Log_error c2)\<lparr>is_connected := False\<rparr>)
       \<or> (\<exists>c1 c2. open_step cfg ev c = (None, c1) \<and> discover_models ev c1 = (None, c2)
            \<and> r = Inr True \<and> c' = c2\<lparr>is_connected := True\<rparr>)"
proof -
  obtain r1 c1 where os: "open_step cfg ev c = (r1, c1)" by (cases "open_step cfg ev c")
  show ?thesis
  proof (cases r1)
    case (Some e)
    from open_step_cases [OF os] Some have "is_Exception e" by auto
    with assms os Some show ?thesis by (simp add: connect_def connect_except_def)
  next
    case None
    obtain r2 c2 where dm: "discover_models ev c1 = (r2, c2)" by (cases "discover_models ev c1")
    show ?thesis
    proof (cases r2)
      case (Some e)
      from discover_models_cases [OF dm] Some have "is_Exception e" by auto
      with assms os None dm Some show ?thesis by (simp add: connect_def connect_except_def)
    next
      case n2: None
      with assms os None dm show ?thesis by (simp add: connect_def)
    qed
  qed
qed

lemma connect_returns: "\<exists>b. fst (connect cfg ev c) = Inr b \<and> is_connected (snd (connect cfg ev c)) = b"
proof -
  obtain r c' where cn: "connect cfg ev c = (r, c')" by (cases "connect cfg ev c")
  from connect_cases [OF cn] cn show ?thesis by (elim disjE exE conjE) auto
qed

text \<open>The calls of a connect attempt: the constructor and the scan, at most once each, and
  error logs. No close, no task.\<close>

lemma connect_events:
  assumes "connect cfg ev c = (r, c')"
  shows "\<exists>evs. trace c' = trace c @ evs
           \<and> set evs \<subseteq> range Open_call \<union> {Scan_call, Log_error}"
proof -
  from connect_cases [OF assms] show ?thesis
  proof (elim disjE exE conjE)
    fix e c1
    assume os: "open_step cfg ev c = (Some e, c1)"
      and c': "c' = (emit Log_error c1)\<lparr>is_connected := False\<rparr>"
    from open_step_cases [OF os] c' show ?thesis
      by (elim disjE exE conjE) auto
  next
    fix e c1 c2
    assume os: "open_step cfg ev c = (None, c1)" and dm: "discover_models ev c1 = (Some e, c2)"
      and c': "c' = (emit Log_error c2)\<lparr>is_connected := False\<rparr>"
    from open_step_cases [OF os] obtain tr where
      1: "trace c1 = trace c @ [Open_call tr]" by auto
    from discover_models_cases [OF dm] have "trace c2 = trace c1 \<or> trace c2 = trace c1 @ [Scan_call]"
      by auto
    with 1 c' show ?thesis by auto
  next
    fix c1 c2
    assume os: "open_step cfg ev c = (None, c1)" and dm: "discover_models ev c1 = (None, c2)"
      and c': "c' = c2\<lparr>is_connected := True\<rparr>"
    from open_step_cases [OF os] obtain tr where
      1: "trace c1 = trace c @ [Open_call tr]" by auto
    from discover_models_cases [OF dm] have "trace c2 = trace c1 @ [Scan_call]"
      by auto
    with 1 c' show ?thesis by auto
  qed
qed

section \<open>C5: a connect attempt that fails\<close>

text \<open>
  C5, amended. If the step that opens the transport raises, or the discovery that follows
  it raises, \<^verbatim>\<open>connect\<close> returns \<^verbatim>\<open>False\<close> to its caller and raises nothing, and
  \<open>is_connected\<close> is false afterwards. It does not close anything: no \<^verbatim>\<open>close\<close> call
  is made, and \<open>device\<close> is left as the open step set it, so a device object created
  before the discovery failed stays in place.
\<close>

theorem connect_failure:
  assumes "fst (open_step cfg ev c) \<noteq> None
         \<or> fst (discover_models ev (snd (open_step cfg ev c))) \<noteq> None"
  shows "fst (connect cfg ev c) = Inr False
       \<and> \<not> is_connected (snd (connect cfg ev c))
       \<and> Close_call \<notin> set (new_events c (snd (connect cfg ev c)))
       \<and> device (snd (connect cfg ev c)) = device (snd (open_step cfg ev c))"
proof -
  obtain r c' where cn: "connect cfg ev c = (r, c')" by (cases "connect cfg ev c")
  from connect_events [OF cn] obtain evs where
    tr: "trace c' = trace c @ evs" and evs: "set evs \<subseteq> range Open_call \<union> {Scan_call, Log_error}"
    by blast
  from tr have "new_events c c' = evs" by (simp add: new_events_def)
  with evs have nc: "Close_call \<notin> set (new_events c c')" by auto
  from connect_cases [OF cn] have
    "r = Inr False \<and> \<not> is_connected c' \<and> device c' = device (snd (open_step cfg ev c))"
  proof (elim disjE exE conjE)
    fix e c1
    assume "open_step cfg ev c = (Some e, c1)" "r = Inr False"
      "c' = (emit Log_error c1)\<lparr>is_connected := False\<rparr>"
    then show ?thesis by simp
  next
    fix e c1 c2
    assume os: "open_step cfg ev c = (None, c1)" and dm: "discover_models ev c1 = (Some e, c2)"
      and r: "r = Inr False" and c': "c' = (emit Log_error c2)\<lparr>is_connected := False\<rparr>"
    from discover_models_cases [OF dm] have "device c2 = device c1" by auto
    with os r c' show ?thesis by simp
  next
    fix c1 c2
    assume "open_step cfg ev c = (None, c1)" "discover_models ev c1 = (None, c2)"
    with assms show ?thesis by simp
  qed
  with nc cn show ?thesis by simp
qed

lemma ex_noscan_eval:
  "connect ex_cfg ex_env_noscan init_client =
     (Inr False,
      \<lparr>device = Some \<lparr>dev_transport = TCP (default_tcp ''192.168.1.100''), models = []\<rparr>,
       is_connected = False, last_read_time = None, cached_data = [], available_models = [],
       clock = 3,
       trace = [Open_call (TCP (default_tcp ''192.168.1.100'')), Scan_call, Log_error]\<rparr>)"
  by (simp add: connect_def open_step_def connect_tcp_def connect_except_def
      discover_models_def ex_cfg_def ex_env_noscan_def init_client_def emit_def)

theorem connect_failure_counterexample:
  "fst (connect ex_cfg ex_env_noscan init_client) = Inr False
   \<and> device (snd (connect ex_cfg ex_env_noscan init_client))
       = Some \<lparr>dev_transport = TCP (default_tcp ''192.168.1.100''), models = []\<rparr>
   \<and> trace (snd (connect ex_cfg ex_env_noscan init_client))
       = [Open_call (TCP (default_tcp ''192.168.1.100'')), Scan_call, Log_error]"
  by (simp add: ex_noscan_eval)

theorem connect_failure_witness:
  "fst (connect ex_cfg ex_env_noscan init_client) = Inr False
   \<and> \<not> is_connected (snd (connect ex_cfg ex_env_noscan init_client))
   \<and> Close_call \<notin> set (new_events init_client (snd (connect ex_cfg ex_env_noscan init_client)))"
proof -
  have "fst (discover_models ex_env_noscan (snd (open_step ex_cfg ex_env_noscan init_client))) \<noteq> None"
    by (simp add: open_step_def connect_tcp_def discover_models_def ex_cfg_def ex_env_noscan_def
        init_client_def emit_def)
  then have "fst (open_step ex_cfg ex_env_noscan init_client) \<noteq> None
         \<or> fst (discover_models ex_env_noscan (snd (open_step ex_cfg ex_env_noscan init_client))) \<noteq> None"
    by (rule disjI2)
  from connect_failure [OF this] show ?thesis by blast
qed

section \<open>C6: the registry across disconnect and reconnect\<close>

text \<open>
  C6, amended. \<^verbatim>\<open>disconnect\<close> drops the device handle and leaves the registry
  \<open>available_models\<close> as it was, in the client and through \<^verbatim>\<open>POST /device/disconnect\<close>.
  A connect that succeeds builds the registry anew from the models the scan found, and from
  nothing else: what the registry held before has no part in it.
\<close>

theorem disconnect_keeps_registry:
  "available_models (disconnect ev c) = available_models c
   \<and> device (disconnect ev c) = None
   \<and> available_models (client (snd (disconnect_device ev g))) = available_models (client g)
   \<and> (fst (connect cfg ev c) = Inr True \<longrightarrow>
        (\<exists>ms. scan_outcome ev (clock (snd (open_step cfg ev c))) = Inr ms
           \<and> available_models (snd (connect cfg ev c)) = fold store_model ms []))"
proof -
  have 1: "available_models (disconnect ev c) = available_models c" for c
    by (simp add: disconnect_def split: option.splits)
  have 2: "device (disconnect ev c) = None"
    by (simp add: disconnect_def split: option.splits)
  have 3: "available_models (client (snd (disconnect_device ev g))) = available_models (client g)"
    by (simp add: disconnect_device_def 1 split: option.splits)
  have 4: "\<exists>ms. scan_outcome ev (clock (snd (open_step cfg ev c))) = Inr ms
           \<and> available_models (snd (connect cfg ev c)) = fold store_model ms []"
    if ok: "fst (connect cfg ev c) = Inr True"
  proof -
    obtain r c' where cn: "connect cfg ev c = (r, c')" by (cases "connect cfg ev c")
    with ok have r: "r = Inr True" by simp
    from connect_cases [OF cn] r obtain c1 c2 where
      os: "open_step cfg ev c = (None, c1)" and dm: "discover_models ev c1 = (None, c2)"
      and c': "c' = c2\<lparr>is_connected := True\<rparr>" by auto
    from discover_models_cases [OF dm] obtain ms where
      "scan_outcome ev (clock c1) = Inr ms" "available_models c2 = fold store_model ms []"
      by auto
    with os c' cn show ?thesis by simp
  qed
  from 1 2 3 4 show ?thesis by blast
qed

theorem disconnect_keeps_registry_counterexample:
  "available_models (client ex_g1) = [(1, ''common''), (101, default_name 101)]
   \<and> available_models (client (snd (disconnect_device ex_env ex_g1)))
       = [(1, ''common''), (101, default_name 101)]"
  by (simp add: ex_g1_eval disconnect_device_def disconnect_def ex_env_def emit_def)

theorem disconnect_keeps_registry_witness:
  "available_models (disconnect ex_env (client ex_g1)) = available_models (client ex_g1)
   \<and> available_models (snd (connect ex_cfg ex_env (disconnect ex_env (client ex_g1))))
       = fold store_model ex_models []"
proof -
  note th = disconnect_keeps_registry [of ex_env "client ex_g1"]
  have ok: "fst (connect ex_cfg ex_env (disconnect ex_env (client ex_g1))) = Inr True"
    by (simp add: ex_g1_eval disconnect_def connect_def open_step_def connect_tcp_def
        discover_models_def ex_cfg_def ex_env_def emit_def)
  have sc: "scan_outcome ex_env t = Inr ex_models" for t by (simp add: ex_env_def)
  from th have 1: "available_models (disconnect ex_env (client ex_g1)) = available_models (client ex_g1)"
    by blast
  from disconnect_keeps_registry [of ex_env "disconnect ex_env (client ex_g1)" init_gateway ex_cfg] ok sc
  have 2: "available_models (snd (connect ex_cfg ex_env (disconnect ex_env (client ex_g1))))
       = fold store_model ex_models []" by auto
  from 1 2 show ?thesis by blast
qed

section \<open>A connected gateway has a polling task\<close>

lemma startup_task:
  "gw_is_connected (snd (startup cfg ev g)) \<longrightarrow> polling_task (snd (startup cfg ev g)) \<noteq> None"
  if "gw_is_connected g \<longrightarrow> polling_task g \<noteq> None"
proof -
  obtain r c' where cn: "connect cfg ev (client g) = (r, c')" by (cases "connect cfg ev (client g)")
  from connect_cases [OF cn] obtain b where "r = Inr b" by auto
  with cn that show ?thesis by (simp add: startup_def)
qed

lemma polling_step_task:
  "gw_is_connected (snd (polling_step cfg ev g)) = gw_is_connected g
   \<and> polling_task (snd (polling_step cfg ev g)) = polling_task g"
proof -
  obtain r c1 where rd: "read_data cfg ev (Some (models_to_read (data_collection cfg))) (client g) = (r, c1)"
    by (cases "read_data cfg ev (Some (models_to_read (data_collection cfg))) (client g)")
  show ?thesis
  proof (cases r)
    case (Inl e)
    with rd show ?thesis by (cases e) (simp_all add: polling_step_def)
  next
    case (Inr d)
    with rd show ?thesis by (simp add: polling_step_def)
  qed
qed

lemma connect_device_task:
  "gw_is_connected (snd (connect_device cfg ev g)) \<longrightarrow>
     polling_task (snd (connect_device cfg ev g)) \<noteq> None"
proof -
  obtain r c' where cn: "connect cfg ev (client g) = (r, c')" by (cases "connect cfg ev (client g)")
  from connect_cases [OF cn] obtain b where "r = Inr b" by auto
  with cn show ?thesis by (simp add: connect_device_def)
qed

lemma disconnect_device_flag: "\<not> gw_is_connected (snd (disconnect_device ev g))"
  by (simp add: disconnect_device_def split: option.splits)

lemma route_except_task:
  "gw_is_connected (snd (route_except e g)) = gw_is_connected g
   \<and> polling_task (snd (route_except e g)) = polling_task g"
  by (simp add: route_except_def gw_emit_def)

lemma get_model_data_task:
  "gw_is_connected (snd (get_model_data ev m g)) = gw_is_connected g
   \<and> polling_task (snd (get_model_data ev m g)) = polling_task g"
proof (cases "gw_is_connected g")
  case False
  then show ?thesis by (simp add: get_model_data_def)
next
  case True
  obtain r c1 where rm: "read_model ev m (client g) = (r, c1)" by (cases "read_model ev m (client g)")
  show ?thesis
  proof (cases r)
    case (Inl e)
    with True rm route_except_task [of e "g\<lparr>client := c1\<rparr>"] show ?thesis
      by (simp add: get_model_data_def)
  next
    case (Inr d)
    with True rm
      route_except_task [of "HTTPException 404 (''Model '' @ str_int m @ '' not found'')" "g\<lparr>client := c1\<rparr>"]
    show ?thesis by (cases d) (simp_all add: get_model_data_def)
  qed
qed

lemma reachable_task:
  "reachable cfg ev g \<Longrightarrow> gw_is_connected g \<longrightarrow> polling_task g \<noteq> None"
proof (induction rule: reachable.induct)
  case r_init
  show ?case by (simp add: init_gateway_def)
next
  case (r_startup g)
  from startup_task [OF r_startup.IH] show ?case .
next
  case (r_poll g)
  then show ?case by (simp add: polling_step_task)
next
  case (r_connect g)
  show ?case by (rule connect_device_task)
next
  case (r_disconnect g)
  show ?case by (simp add: disconnect_device_flag)
next
  case (r_get_model g m)
  then show ?case by (simp add: get_model_data_task)
qed

section \<open>C3: connect while connected\<close>

text \<open>
  C3, amended. In every state the gateway can reach in which it is connected,
  \<^verbatim>\<open>POST /device/connect\<close> starts no second polling task: the handle is kept and no task
  is created. It is not a no-op: the calls it makes are those of a whole new connect
  attempt of the client, which constructs a device again (for a TCP or RTU configuration
  that is present) and, when the constructor returns, scans again; and what it answers, and
  leaves in both connected flags, is the outcome of that new attempt.
\<close>

theorem connect_device_again:
  assumes "reachable cfg ev g" and "gw_is_connected g"
  shows "Create_task \<notin> set (new_events (client g) (client (snd (connect_device cfg ev g))))
       \<and> polling_task (snd (connect_device cfg ev g)) = polling_task g
       \<and> polling_task g \<noteq> None
       \<and> client (snd (connect_device cfg ev g)) = snd (connect cfg ev (client g))
       \<and> (\<exists>b t. fst (connect cfg ev (client g)) = Inr b
             \<and> fst (connect_device cfg ev g) = Inr (Connected_body b t)
             \<and> gw_is_connected (snd (connect_device cfg ev g)) = b
             \<and> is_connected (client (snd (connect_device cfg ev g))) = b)
       \<and> (\<forall>tc. connection_type (inverter cfg) = ''tcp'' \<and> tcp (inverter cfg) = Some tc \<longrightarrow>
             Open_call (TCP tc) \<in> set (new_events (client g) (client (snd (connect_device cfg ev g)))))
       \<and> (\<forall>rc. connection_type (inverter cfg) = ''rtu'' \<and> rtu (inverter cfg) = Some rc \<longrightarrow>
             Open_call (RTU rc) \<in> set (new_events (client g) (client (snd (connect_device cfg ev g)))))
       \<and> (fst (open_step cfg ev (client g)) = None \<longrightarrow>
             Scan_call \<in> set (new_events (client g) (client (snd (connect_device cfg ev g)))))"
proof -
  let ?c = "client g"
  from reachable_task [OF assms(1)] assms(2) have pt: "polling_task g \<noteq> None" by simp
  obtain r c' where cn: "connect cfg ev ?c = (r, c')" by (cases "connect cfg ev ?c")
  from connect_returns [of cfg ev ?c] cn obtain b where
    r: "r = Inr b" and ic: "is_connected c' = b" by auto
  from cn r pt have cd: "connect_device cfg ev g
      = (Inr (Connected_body b (clock c')), g\<lparr>client := c', gw_is_connected := b\<rparr>)"
    by (simp add: connect_device_def)
  from connect_events [OF cn] obtain evs where
    tr: "trace c' = trace ?c @ evs" and evs: "set evs \<subseteq> range Open_call \<union> {Scan_call, Log_error}"
    by blast
  from tr have ne: "new_events ?c c' = evs" by (simp add: new_events_def)
  from evs have 1: "Create_task \<notin> set evs" by auto
  have 2: "Open_call (TCP tc) \<in> set evs"
    if "connection_type (inverter cfg) = ''tcp''" "tcp (inverter cfg) = Some tc" for tc
  proof -
    obtain r1 c1 where os: "open_step cfg ev ?c = (r1, c1)" by (cases "open_step cfg ev ?c")
    with that have ct: "connect_tcp cfg ev ?c = (r1, c1)" by (simp add: open_step_def)
    from connect_tcp_cases [OF ct] that have t1: "trace c1 = trace ?c @ [Open_call (TCP tc)]"
      by auto
    from connect_cases [OF cn] os have "\<exists>evs2. trace c' = trace c1 @ evs2"
    proof (elim disjE exE conjE)
      fix e c1a c2
      assume "open_step cfg ev ?c = (None, c1a)" "discover_models ev c1a = (Some e, c2)"
        "c' = (emit Log_error c2)\<lparr>is_connected := False\<rparr>"
      with os discover_models_cases [of ev c1a "Some e" c2] show ?thesis by auto
    next
      fix c1a c2
      assume "open_step cfg ev ?c = (None, c1a)" "discover_models ev c1a = (None, c2)"
        "c' = c2\<lparr>is_connected := True\<rparr>"
      with os discover_models_cases [of ev c1a None c2] show ?thesis by auto
    qed auto
    with t1 tr show ?thesis by auto
  qed
  have 3: "Open_call (RTU rc) \<in> set evs"
    if "connection_type (inverter cfg) = ''rtu''" "rtu (inverter cfg) = Some rc" for rc
  proof -
    obtain r1 c1 where os: "open_step cfg ev ?c = (r1, c1)" by (cases "open_step cfg ev ?c")
    with that have ct: "connect_rtu cfg ev ?c = (r1, c1)" by (simp add: open_step_def)
    from connect_rtu_cases [OF ct] that have t1: "trace c1 = trace ?c @ [Open_call (RTU rc)]"
      by auto
    from connect_cases [OF cn] os have "\<exists>evs2. trace c' = trace c1 @ evs2"
    proof (elim disjE exE conjE)
      fix e c1a c2
      assume "open_step cfg ev ?c = (None, c1a)" "discover_models ev c1a = (Some e, c2)"
        "c' = (emit Log_error c2)\<lparr>is_connected := False\<rparr>"
      with os discover_models_cases [of ev c1a "Some e" c2] show ?thesis by auto
    next
      fix c1a c2
      assume "open_step cfg ev ?c = (None, c1a)" "discover_models ev c1a = (None, c2)"
        "c' = c2\<lparr>is_connected := True\<rparr>"
      with os discover_models_cases [of ev c1a None c2] show ?thesis by auto
    qed auto
    with t1 tr show ?thesis by auto
  qed
  have 4: "Scan_call \<in> set evs" if "fst (open_step cfg ev ?c) = None"
  proof -
    obtain r1 c1 where "open_step cfg ev ?c = (r1, c1)" by (cases "open_step cfg ev ?c")
    with that have os: "open_step cfg ev ?c = (None, c1)" by simp
    from open_step_cases [OF os] obtain d where dv: "device c1 = Some d" by auto
    obtain r2 c2 where dm: "discover_models ev c1 = (r2, c2)" by (cases "discover_models ev c1")
    from discover_models_cases [OF dm] dv have t2: "trace c2 = trace c1 @ [Scan_call]" by auto
    from open_step_cases [OF os] obtain tr1 where t1: "trace c1 = trace ?c @ [Open_call tr1]" by auto
    from connect_cases [OF cn] os dm have "trace c' = trace c2 \<or> trace c' = trace c2 @ [Log_error]"
      by (elim disjE exE conjE) auto
    with t1 t2 tr show ?thesis by auto
  qed
  from cd cn r ic pt 1 2 3 4 show ?thesis unfolding cd by (simp add: ne)
qed

lemma ex_reconnect_eval:
  "connect_device ex_cfg ex_env ex_g1 =
     (Inr (Connected_body True 5),
      \<lparr>client =
        \<lparr>device = Some \<lparr>dev_transport = TCP (default_tcp ''192.168.1.100''), models = ex_models\<rparr>,
         is_connected = True, last_read_time = None, cached_data = [],
         available_models = [(1, ''common''), (101, default_name 101)],
         clock = 5,
         trace = [Open_call (TCP (default_tcp ''192.168.1.100'')), Scan_call, Create_task,
                  Open_call (TCP (default_tcp ''192.168.1.100'')), Scan_call]\<rparr>,
      gw_is_connected = True, last_data = [], polling_task = Some (Task 2)\<rparr>)"
  by (simp add: ex_g1_eval connect_device_def connect_def open_step_def connect_tcp_def
      discover_models_def ex_cfg_def ex_env_def emit_def)
    (simp add: ex_models_def ex_common_def ex_inverter_def)

theorem connect_device_again_counterexample:
  "gw_is_connected ex_g1 \<and> is_connected (client ex_g1)
   \<and> new_events (client ex_g1) (client (snd (connect_device ex_cfg ex_env ex_g1)))
       = [Open_call (TCP (default_tcp ''192.168.1.100'')), Scan_call]"
  by (simp add: ex_reconnect_eval new_events_def) (simp add: ex_g1_eval)

lemma ex_g1_reachable: "reachable ex_cfg ex_env ex_g1"
  unfolding ex_g1_def by (rule r_startup) (rule r_init)

theorem connect_device_again_witness:
  "Create_task \<notin> set (new_events (client ex_g1) (client (snd (connect_device ex_cfg ex_env ex_g1))))
   \<and> polling_task (snd (connect_device ex_cfg ex_env ex_g1)) = polling_task ex_g1
   \<and> Open_call (TCP (default_tcp ''192.168.1.100''))
        \<in> set (new_events (client ex_g1) (client (snd (connect_device ex_cfg ex_env ex_g1))))"
proof -
  have c: "gw_is_connected ex_g1" by (simp add: ex_g1_eval)
  have t: "connection_type (inverter ex_cfg) = ''tcp''
           \<and> tcp (inverter ex_cfg) = Some (default_tcp ''192.168.1.100'')"
    by (simp add: ex_cfg_def)
  from connect_device_again [OF ex_g1_reachable c] t show ?thesis by blast
qed

section \<open>C2: the order of a disconnect\<close>

text \<open>No path of \<^verbatim>\<open>disconnect_device\<close> awaits the polling task; \<^verbatim>\<open>shutdown\<close> awaits it
  whenever there is one.\<close>

lemma disconnect_device_never_awaits:
  "Await_task \<notin> set (new_events (client g) (client (snd (disconnect_device ev g))))"
  by (simp add: disconnect_device_def disconnect_def new_events_def emit_def
      split: option.splits)

lemma shutdown_awaits:
  "polling_task g \<noteq> None \<Longrightarrow>
     take 2 (new_events (client g) (client (shutdown ev g))) = [Cancel_task, Await_task]"
  by (auto simp: shutdown_def disconnect_def new_events_def emit_def split: option.splits)

text \<open>
  C2. In the example session, \<^verbatim>\<open>POST /device/disconnect\<close> cancels the polling task and
  goes on to close the device without awaiting the task, where \<^verbatim>\<open>shutdown\<close> awaits it
  between the two.
\<close>

theorem disconnect_device_no_await:
  "polling_task ex_g1 = Some (Task 2)
   \<and> new_events (client ex_g1) (client (snd (disconnect_device ex_env ex_g1)))
       = [Cancel_task, Close_call]
   \<and> new_events (client ex_g1) (client (shutdown ex_env ex_g1))
       = [Cancel_task, Await_task, Close_call]"
  by (simp add: ex_g1_eval disconnect_device_def shutdown_def disconnect_def new_events_def
      ex_env_def emit_def)

section \<open>C4: GET /data/model/{id} for a model the device does not have\<close>

text \<open>\<^verbatim>\<open>read_model\<close> returns a dictionary on every path, never \<^verbatim>\<open>None\<close>.\<close>

lemma read_model_not_None: "fst (read_model ev m c) \<noteq> Inr PyNone"
proof -
  obtain r c' where rm: "read_model ev m c = (r, c')" by (cases "read_model ev m c")
  from read_model_cases [OF rm] rm show ?thesis by (elim disjE exE conjE) auto
qed

lemma unknown_model_is_success:
  assumes "gw_is_connected g" and "\<not> has_model (client g) m"
  shows "get_model_data ev m g = (Inr (Model_body m Empty_dict (clock (client g))), g)"
proof -
  from assms(2) have "read_model ev m (client g) = (Inr Empty_dict, client g)"
    by (auto simp: read_model_def has_model_def split: option.splits list.splits)
  with assms(1) show ?thesis by (simp add: get_model_data_def)
qed

text \<open>
  C4. In the example session the gateway is connected and the device has no model 999;
  \<^verbatim>\<open>GET /data/model/999\<close> answers with a success whose points are the empty
  dictionary, not with 404.
\<close>

theorem get_model_data_unknown:
  "gw_is_connected ex_g1 \<and> map_of (models (the (device (client ex_g1)))) (IntKey 999) = None
   \<and> get_model_data ex_env 999 ex_g1 = (Inr (Model_body 999 Empty_dict 3), ex_g1)"
proof -
  have 1: "gw_is_connected ex_g1" and 2: "\<not> has_model (client ex_g1) 999"
    and 3: "clock (client ex_g1) = 3"
    and 4: "map_of (models (the (device (client ex_g1)))) (IntKey 999) = None"
    by (simp_all add: ex_g1_eval has_model_def)
  from unknown_model_is_success [OF 1 2, of ex_env] 3 4 1 show ?thesis by simp
qed

end
